theory Spec2Isabelle
  imports Main "HOL-Library.Word"
begin

unbundle bit_operations_syntax

section \<open>Data model of far/topologyRefiner.cpp\<close>

subsection \<open>Faults\<close>

text \<open>
  The C++ methods return no error values.  What can go wrong in them is a failed
  \<^verbatim>\<open>assert\<close>, an access outside a \<^verbatim>\<open>std::vector\<close> (undefined behaviour in C++) and a
  \<^verbatim>\<open>resize\<close> with a negative \<^verbatim>\<open>int\<close> converted to \<^verbatim>\<open>size_t\<close> (a
  \<^verbatim>\<open>std::length_error\<close>).  Each of them is a value of the model.  Exhaustion of memory is
  not modelled.
\<close>

datatype fault = AssertionFailed | OutOfBounds | LengthError

subsection \<open>Scheme type and crease rules\<close>

datatype SdcType = TYPE_BILINEAR | TYPE_CATMARK | TYPE_LOOP

text \<open>
  Modelled from the spec: the enumeration \<^verbatim>\<open>Sdc::Crease::Rule\<close> is declared in
  sdc/crease.h, which is not among the sources.  The spec names four rule bits
  (Smooth, Dart, Crease, Corner) that are combined bitwise; each is one bit of a
  four-bit field.
\<close>

definition RULE_SMOOTH :: "4 word" where "RULE_SMOOTH = 1"
definition RULE_DART :: "4 word" where "RULE_DART = 2"
definition RULE_CREASE :: "4 word" where "RULE_CREASE = 4"
definition RULE_CORNER :: "4 word" where "RULE_CORNER = 8"

subsection \<open>Vertex tags and levels (Vtr::Level, at its accessor interface)\<close>

text \<open>
  Modelled from the spec: \<^verbatim>\<open>Vtr::Level::VTag\<close> is declared in vtr/level.h, which is not
  among the sources.  The fields are those that \<^verbatim>\<open>catmarkFeatureAdaptiveSelector\<close> reads.
\<close>

record VTag =
  incomplete :: bool
  xordinary :: bool
  semiSharp :: bool
  nonManifold :: bool
  rule :: "4 word"

text \<open>
  Modelled from the spec: \<^verbatim>\<open>Vtr::Level\<close> is external to topologyRefiner.cpp, which uses
  it only through \<^verbatim>\<open>getNumVertices\<close>, \<^verbatim>\<open>getNumFaces\<close>, \<^verbatim>\<open>getFaceVertices\<close>,
  \<^verbatim>\<open>getVertexFaces\<close> and \<^verbatim>\<open>getFaceCompositeVTag\<close>.  A level is the record of these
  accessors; the last one is derived from the tag of each vertex.
\<close>

record Level =
  getNumVertices :: nat
  getNumFaces :: nat
  getFaceVertices :: "nat \<Rightarrow> nat list"
  getVertexFaces :: "nat \<Rightarrow> nat list"
  getVertexTag :: "nat \<Rightarrow> VTag"

definition emptyVTag :: VTag where
  "emptyVTag = \<lparr>incomplete = False, xordinary = False, semiSharp = False,
                 nonManifold = False, rule = 0\<rparr>"

text \<open>A default-constructed level, as \<^verbatim>\<open>std::vector::resize\<close> creates it.\<close>

definition emptyLevel :: Level where
  "emptyLevel = \<lparr>getNumVertices = 0, getNumFaces = 0, getFaceVertices = (\<lambda>f. []),
                  getVertexFaces = (\<lambda>v. []), getVertexTag = (\<lambda>v. emptyVTag)\<rparr>"

definition combineVTag :: "VTag \<Rightarrow> VTag \<Rightarrow> VTag" where
  "combineVTag a b =
     \<lparr>incomplete = (incomplete a \<or> incomplete b),
      xordinary = (xordinary a \<or> xordinary b),
      semiSharp = (semiSharp a \<or> semiSharp b),
      nonManifold = (nonManifold a \<or> nonManifold b),
      rule = (rule a OR rule b)\<rparr>"

text \<open>
  Modelled from the spec: \<^verbatim>\<open>Level::getFaceCompositeVTag\<close> is defined in vtr/level.cpp,
  which is not among the sources.  The spec describes the composite tag of a face as the
  aggregation, across the vertices of the face, of the four flags and of the bitwise
  combined rule.  The selector calls it for faces of four vertices only; the empty vertex
  list is given the empty tag.
\<close>

definition getFaceCompositeVTag :: "Level \<Rightarrow> nat list \<Rightarrow> VTag" where
  "getFaceCompositeVTag level faceVerts =
     (case faceVerts of
        [] \<Rightarrow> emptyVTag
      | v # vs \<Rightarrow> foldl (\<lambda>t w. combineVTag t (getVertexTag level w)) (getVertexTag level v) vs)"

subsection \<open>Sparse selection (Vtr::SparseSelector)\<close>

text \<open>
  Modelled from the spec: \<^verbatim>\<open>Vtr::SparseSelector\<close> is declared in vtr/sparseSelector.h,
  which is not among the sources.  The spec describes it as an accumulator of the faces
  chosen for refinement, with a query for "nothing selected".  Its state is the set of
  the selected faces.
\<close>

type_synonym SparseSelector = "nat set"

definition selectFace :: "nat \<Rightarrow> SparseSelector \<Rightarrow> SparseSelector" where
  "selectFace f selector = insert f selector"

definition isSelectionEmpty :: "SparseSelector \<Rightarrow> bool" where
  "isSelectionEmpty selector = (selector = {})"

section \<open>The feature-adaptive selector\<close>

text \<open>The inner loop over \<^verbatim>\<open>j\<close>: every face incident to one vertex is selected.\<close>

definition selectVertexFaces :: "Level \<Rightarrow> nat \<Rightarrow> SparseSelector \<Rightarrow> SparseSelector" where
  "selectVertexFaces level v selector =
     foldl (\<lambda>s g. selectFace g s) selector (getVertexFaces level v)"

text \<open>The loop over \<^verbatim>\<open>i\<close>: the vertices of a face that is not a quad.\<close>

definition selectIncidentFaces :: "Level \<Rightarrow> nat list \<Rightarrow> SparseSelector \<Rightarrow> SparseSelector" where
  "selectIncidentFaces level fVerts selector =
     foldl (\<lambda>s v. selectVertexFaces level v s) selector fVerts"

text \<open>The value of the local variable \<^verbatim>\<open>selectFace\<close> after the chain of tests.\<close>

definition selectFaceFlag :: "VTag \<Rightarrow> bool" where
  "selectFaceFlag compFaceTag =
     (if xordinary compFaceTag \<or> semiSharp compFaceTag then True
      else if rule compFaceTag AND RULE_DART \<noteq> 0 then True
      else if nonManifold compFaceTag then True
      else if \<not> (rule compFaceTag AND RULE_SMOOTH \<noteq> 0) then True
      else False)"

text \<open>The body of the loop over the faces, for one face.\<close>

definition selectorFaceStep :: "Level \<Rightarrow> nat \<Rightarrow> SparseSelector \<Rightarrow> SparseSelector" where
  "selectorFaceStep level face selector =
     (let faceVerts = getFaceVertices level face in
      if length faceVerts \<noteq> 4 then selectIncidentFaces level faceVerts selector
      else
        let compFaceTag = getFaceCompositeVTag level faceVerts in
        if incomplete compFaceTag then selector
        else if selectFaceFlag compFaceTag then selectFace face selector
        else selector)"

definition catmarkFeatureAdaptiveSelector :: "Level \<Rightarrow> SparseSelector \<Rightarrow> SparseSelector" where
  "catmarkFeatureAdaptiveSelector level selector =
     foldl (\<lambda>s face. selectorFaceStep level face s) selector [0..<getNumFaces level]"

section \<open>The hierarchy owner (Far::TopologyRefiner)\<close>

subsection \<open>Refinements (Vtr::Refinement, at its interface)\<close>

record RefineOptions =
  sparse :: bool
  faceTopologyOnly :: bool

text \<open>
  Modelled from the spec: \<^verbatim>\<open>Vtr::Refinement\<close> is external to topologyRefiner.cpp.  The
  driver binds it to the scheme (\<^verbatim>\<open>setScheme\<close>), to its parent and child levels
  (\<^verbatim>\<open>initialize\<close>, here the positions of the two levels in the sequence), lets the
  selector mark faces in it, and calls \<^verbatim>\<open>refine\<close>.  The arithmetic of \<^verbatim>\<open>refine\<close>,
  which fills the child level, is a parameter \<open>rf\<close> of the driver: it receives the
  refinement, the options, the parent level and the child slot.
\<close>

record 'o Refinement =
  refScheme :: "(SdcType \<times> 'o) option"
  refParent :: "nat option"
  refChild :: "nat option"
  refSelected :: "nat set"

definition emptyRefinement :: "'o Refinement" where
  "emptyRefinement = \<lparr>refScheme = None, refParent = None, refChild = None, refSelected = {}\<rparr>"

definition setScheme :: "SdcType \<Rightarrow> 'o \<Rightarrow> 'o Refinement \<Rightarrow> 'o Refinement" where
  "setScheme t opts r = r\<lparr>refScheme := Some (t, opts)\<rparr>"

definition initialize :: "nat \<Rightarrow> nat \<Rightarrow> 'o Refinement \<Rightarrow> 'o Refinement" where
  "initialize parent child r = r\<lparr>refParent := Some parent, refChild := Some child\<rparr>"

type_synonym 'o refineFn = "'o Refinement \<Rightarrow> RefineOptions \<Rightarrow> Level \<Rightarrow> Level \<Rightarrow> Level"

subsection \<open>The state of a TopologyRefiner\<close>

text \<open>
  The members of the class, without their leading underscore.  \<open>refineTrace\<close> is not a
  member: it records, in call order, every call of \<^verbatim>\<open>Refinement::refine\<close> that the
  driver makes, as the position of the refinement and the options passed.
\<close>

record 'o TopologyRefiner =
  subdivType :: SdcType
  subdivOptions :: 'o
  isUniform :: bool
  maxLevel :: int
  levels :: "Level list"
  refinements :: "'o Refinement list"
  ptexIndices :: "int list"
  refineTrace :: "(nat \<times> RefineOptions) list"

text \<open>\<^verbatim>\<open>std::vector::resize(n)\<close>: truncation, or extension by default values.\<close>

definition resizeVec :: "nat \<Rightarrow> 'a \<Rightarrow> 'a list \<Rightarrow> 'a list" where
  "resizeVec n d xs = take n xs @ replicate (n - length xs) d"

definition newTopologyRefiner :: "SdcType \<Rightarrow> 'o \<Rightarrow> 'o TopologyRefiner" where
  "newTopologyRefiner schemeType schemeOptions =
     \<lparr>subdivType = schemeType, subdivOptions = schemeOptions, isUniform = True,
      maxLevel = 0, levels = resizeVec 1 emptyLevel [], refinements = [],
      ptexIndices = [], refineTrace = []\<rparr>"

definition Unrefine :: "'o TopologyRefiner \<Rightarrow> 'o TopologyRefiner" where
  "Unrefine st =
     (let st1 = (if length (levels st) \<noteq> 0
                 then st\<lparr>levels := resizeVec 1 emptyLevel (levels st)\<rparr> else st)
      in st1\<lparr>refinements := []\<rparr>)"

definition Clear :: "'o TopologyRefiner \<Rightarrow> 'o TopologyRefiner" where
  "Clear st = st\<lparr>levels := [], refinements := []\<rparr>"

subsection \<open>Ptex indices\<close>

text \<open>
  \<^verbatim>\<open>Sdc::TypeTraits<T>::RegularFaceValence()\<close> is declared in sdc/type.h, which is not
  among the sources: the regular face valence of each scheme is the parameter \<open>rfv\<close> of
  the functions below.  The running \<^verbatim>\<open>ptexID\<close> is an \<^verbatim>\<open>int\<close>; it never exceeds the
  number of face-vertices of the level by more than the number of its faces, and is
  modelled without wrap-around.
\<close>

definition ptexFaceCount :: "int \<Rightarrow> Level \<Rightarrow> nat \<Rightarrow> int" where
  "ptexFaceCount regularFaceValence coarseLevel i =
     (let fverts = getFaceVertices coarseLevel i in
      if int (length fverts) = regularFaceValence then 1 else int (length fverts))"

text \<open>
  The loop of \<^verbatim>\<open>computePtexIndices\<close> over the faces \<open>i\<close>, on the pair of the vector and
  the running \<^verbatim>\<open>ptexID\<close>.
\<close>

definition ptexStep :: "int \<Rightarrow> Level \<Rightarrow> int list \<times> int \<Rightarrow> nat \<Rightarrow> int list \<times> int" where
  "ptexStep regularFaceValence coarseLevel acc i =
     (case acc of (indices, ptexID) \<Rightarrow>
        (indices[i := ptexID], ptexID + ptexFaceCount regularFaceValence coarseLevel i))"

definition computePtexIndices :: "int \<Rightarrow> Level \<Rightarrow> int list \<Rightarrow> int list" where
  "computePtexIndices regularFaceValence coarseLevel indices =
     (let nfaces = getNumFaces coarseLevel;
          indices1 = resizeVec (nfaces + 1) 0 indices in
      case foldl (ptexStep regularFaceValence coarseLevel) (indices1, 0) [0..<nfaces] of
        (indices2, ptexID) \<Rightarrow> indices2[nfaces := ptexID])"

definition initializePtexIndices ::
  "(SdcType \<Rightarrow> int) \<Rightarrow> 'o TopologyRefiner \<Rightarrow> fault + 'o TopologyRefiner" where
  "initializePtexIndices rfv st =
     (case levels st of
        [] \<Rightarrow> Inl OutOfBounds
      | level0 # _ \<Rightarrow>
          Inr (st\<lparr>ptexIndices :=
            (case subdivType st of
               TYPE_BILINEAR \<Rightarrow> computePtexIndices (rfv TYPE_BILINEAR) level0 (ptexIndices st)
             | TYPE_CATMARK \<Rightarrow> computePtexIndices (rfv TYPE_CATMARK) level0 (ptexIndices st)
             | TYPE_LOOP \<Rightarrow> computePtexIndices (rfv TYPE_LOOP) level0 (ptexIndices st))\<rparr>))"

text \<open>
  The two queries are \<^verbatim>\<open>const\<close> methods that fill the cache through a
  \<^verbatim>\<open>const_cast\<close>: they return the value together with the state.
  \<open>ensurePtexIndices\<close> is the test \<^verbatim>\<open>if (_ptexIndices.empty())\<close> at the head of both.
\<close>

definition ensurePtexIndices ::
  "(SdcType \<Rightarrow> int) \<Rightarrow> 'o TopologyRefiner \<Rightarrow> fault + 'o TopologyRefiner" where
  "ensurePtexIndices rfv st =
     (if ptexIndices st = [] then initializePtexIndices rfv st else Inr st)"

definition GetNumPtexFaces ::
  "(SdcType \<Rightarrow> int) \<Rightarrow> 'o TopologyRefiner \<Rightarrow> fault + (int \<times> 'o TopologyRefiner)" where
  "GetNumPtexFaces rfv st =
     (case ensurePtexIndices rfv st of
        Inl e \<Rightarrow> Inl e
      | Inr st1 \<Rightarrow>
          (case ptexIndices st1 of
             [] \<Rightarrow> Inl OutOfBounds
           | _ # _ \<Rightarrow> Inr (last (ptexIndices st1), st1)))"

definition GetPtexIndex ::
  "(SdcType \<Rightarrow> int) \<Rightarrow> 'o TopologyRefiner \<Rightarrow> int \<Rightarrow> fault + (int \<times> 'o TopologyRefiner)" where
  "GetPtexIndex rfv st f =
     (case ensurePtexIndices rfv st of
        Inl e \<Rightarrow> Inl e
      | Inr st1 \<Rightarrow>
          if f < int (length (ptexIndices st1)) - 1 then
            (if 0 \<le> f then Inr (ptexIndices st1 ! nat f, st1) else Inl OutOfBounds)
          else Inr (-1, st1))"

subsection \<open>Uniform refinement\<close>

text \<open>
  The body of the loop of \<^verbatim>\<open>RefineUniform\<close> for one \<open>i\<close>.  The local
  \<^verbatim>\<open>refineOptions\<close> is carried from one iteration to the next; its field
  \<^verbatim>\<open>_faceTopologyOnly\<close> is assigned in every iteration before it is read, so the value
  that the constructor of the options gives it does not matter.
\<close>

definition uniformStep ::
  "'o refineFn \<Rightarrow> bool \<Rightarrow> int \<Rightarrow> RefineOptions \<Rightarrow> int \<Rightarrow> 'o TopologyRefiner
     \<Rightarrow> fault + (RefineOptions \<times> 'o TopologyRefiner)" where
  "uniformStep rf fullTopology maxLevelArg refineOptions i st =
     (if 1 \<le> i \<and> nat i < length (levels st) \<and> nat (i - 1) < length (refinements st) then
        let refineOptions1 = refineOptions\<lparr>faceTopologyOnly :=
                               (if fullTopology then False else (i = maxLevelArg))\<rparr>;
            r1 = setScheme (subdivType st) (subdivOptions st) (refinements st ! nat (i - 1));
            r2 = initialize (nat (i - 1)) (nat i) r1;
            child = rf r2 refineOptions1 (levels st ! nat (i - 1)) (levels st ! nat i)
        in Inr (refineOptions1,
                st\<lparr>refinements := (refinements st)[nat (i - 1) := r2],
                   levels := (levels st)[nat i := child],
                   refineTrace := refineTrace st @ [(nat (i - 1), refineOptions1)]\<rparr>)
      else Inl OutOfBounds)"

function uniformLoop ::
  "'o refineFn \<Rightarrow> bool \<Rightarrow> int \<Rightarrow> RefineOptions \<Rightarrow> int \<Rightarrow> 'o TopologyRefiner
     \<Rightarrow> fault + 'o TopologyRefiner" where
  "uniformLoop rf fullTopology maxLevelArg refineOptions i st =
     (if i \<le> maxLevelArg then
        (case uniformStep rf fullTopology maxLevelArg refineOptions i st of
           Inl e \<Rightarrow> Inl e
         | Inr (refineOptions1, st1) \<Rightarrow>
             uniformLoop rf fullTopology maxLevelArg refineOptions1 (i + 1) st1)
      else Inr st)"
  by pat_completeness auto
termination
  by (relation "measure (\<lambda>(rf, fullTopology, maxLevelArg, refineOptions, i, st).
                           nat (maxLevelArg + 1 - i))") auto

text \<open>
  The first access is \<^verbatim>\<open>_levels[0]\<close> in the assertion.  A negative \<open>maxLevelArg\<close> makes
  one of the two \<^verbatim>\<open>resize\<close> calls throw; at the largest \<^verbatim>\<open>int\<close> the sum
  \<^verbatim>\<open>maxLevel + 1\<close> is not representable.
\<close>

definition RefineUniform ::
  "'o refineFn \<Rightarrow> int \<Rightarrow> bool \<Rightarrow> 'o TopologyRefiner \<Rightarrow> fault + 'o TopologyRefiner" where
  "RefineUniform rf maxLevelArg fullTopology st =
     (case levels st of
        [] \<Rightarrow> Inl OutOfBounds
      | level0 # _ \<Rightarrow>
          if \<not> 0 < getNumVertices level0 then Inl AssertionFailed
          else if subdivType st \<noteq> TYPE_CATMARK then Inl AssertionFailed
          else if maxLevelArg < 0 \<or> 2147483647 \<le> maxLevelArg then Inl LengthError
          else
            let st1 = st\<lparr>isUniform := True, maxLevel := maxLevelArg,
                         levels := resizeVec (nat (maxLevelArg + 1)) emptyLevel (levels st),
                         refinements := resizeVec (nat maxLevelArg) emptyRefinement (refinements st)\<rparr>;
                refineOptions = \<lparr>sparse = False, faceTopologyOnly = False\<rparr>
            in uniformLoop rf fullTopology maxLevelArg refineOptions 1 st1)"

subsection \<open>Adaptive refinement\<close>

text \<open>
  One iteration of the loop of \<^verbatim>\<open>RefineAdaptive\<close> up to the test of the selection: the
  refinement at \<open>i - 1\<close> is bound and initialised, and a fresh selector, filled by
  \<open>catmarkFeatureAdaptiveSelector\<close> on the parent level, leaves its marks in it.
\<close>

definition adaptiveSelect :: "int \<Rightarrow> 'o TopologyRefiner \<Rightarrow> 'o Refinement" where
  "adaptiveSelect i st =
     (let parentLevel = levels st ! nat (i - 1);
          r1 = setScheme (subdivType st) (subdivOptions st) (refinements st ! nat (i - 1));
          r2 = initialize (nat (i - 1)) (nat i) r1;
          selector = catmarkFeatureAdaptiveSelector parentLevel {}
      in r2\<lparr>refSelected := selector\<rparr>)"

text \<open>The branch that refines.\<close>

definition adaptiveRefine ::
  "'o refineFn \<Rightarrow> RefineOptions \<Rightarrow> int \<Rightarrow> 'o Refinement \<Rightarrow> 'o TopologyRefiner
     \<Rightarrow> 'o TopologyRefiner" where
  "adaptiveRefine rf refineOptions i refinement st =
     st\<lparr>refinements := (refinements st)[nat (i - 1) := refinement],
        levels := (levels st)[nat i :=
                    rf refinement refineOptions (levels st ! nat (i - 1)) (levels st ! nat i)],
        refineTrace := refineTrace st @ [(nat (i - 1), refineOptions)]\<rparr>"

text \<open>The branch that trims the two vectors and leaves the loop.\<close>

definition adaptiveTrim :: "int \<Rightarrow> 'o Refinement \<Rightarrow> 'o TopologyRefiner \<Rightarrow> 'o TopologyRefiner" where
  "adaptiveTrim i refinement st =
     (let maxLevel1 = i - 1 in
      st\<lparr>maxLevel := maxLevel1,
         levels := resizeVec (nat (maxLevel1 + 1)) emptyLevel (levels st),
         refinements := resizeVec (nat maxLevel1) emptyRefinement
                          ((refinements st)[nat (i - 1) := refinement])\<rparr>)"

function adaptiveLoop ::
  "'o refineFn \<Rightarrow> int \<Rightarrow> RefineOptions \<Rightarrow> int \<Rightarrow> 'o TopologyRefiner
     \<Rightarrow> fault + 'o TopologyRefiner" where
  "adaptiveLoop rf subdivLevel refineOptions i st =
     (if i \<le> subdivLevel then
        if 1 \<le> i \<and> nat i < length (levels st) \<and> nat (i - 1) < length (refinements st) then
          let refineOptions1 = refineOptions\<lparr>faceTopologyOnly := False\<rparr>;
              refinement = adaptiveSelect i st
          in if \<not> isSelectionEmpty (refSelected refinement) then
               adaptiveLoop rf subdivLevel refineOptions1 (i + 1)
                 (adaptiveRefine rf refineOptions1 i refinement st)
             else Inr (adaptiveTrim i refinement st)
        else Inl OutOfBounds
      else Inr st)"
  by pat_completeness auto
termination
  by (relation "measure (\<lambda>(rf, subdivLevel, refineOptions, i, st).
                           nat (subdivLevel + 1 - i))") auto

definition RefineAdaptive ::
  "'o refineFn \<Rightarrow> int \<Rightarrow> bool \<Rightarrow> 'o TopologyRefiner \<Rightarrow> fault + 'o TopologyRefiner" where
  "RefineAdaptive rf subdivLevel fullTopology st =
     (case levels st of
        [] \<Rightarrow> Inl OutOfBounds
      | level0 # _ \<Rightarrow>
          if \<not> 0 < getNumVertices level0 then Inl AssertionFailed
          else if subdivType st \<noteq> TYPE_CATMARK then Inl AssertionFailed
          else if subdivLevel < 0 \<or> 2147483647 \<le> subdivLevel then Inl LengthError
          else
            let st1 = st\<lparr>isUniform := False, maxLevel := subdivLevel,
                         levels := resizeVec (nat (subdivLevel + 1)) emptyLevel (levels st),
                         refinements := resizeVec (nat subdivLevel) emptyRefinement (refinements st)\<rparr>;
                refineOptions = \<lparr>sparse = True, faceTopologyOnly = (\<not> fullTopology)\<rparr>
            in adaptiveLoop rf subdivLevel refineOptions 1 st1)"

section \<open>Concrete meshes and hierarchies\<close>

text \<open>
  Small inputs on which the theorems below are instantiated.  The base level of a
  hierarchy is loaded after construction by code outside topologyRefiner.cpp; here it is
  stored in the first slot of the level sequence.
\<close>

definition smoothTag :: VTag where
  "smoothTag = \<lparr>incomplete = False, xordinary = False, semiSharp = False,
                 nonManifold = False, rule = RULE_SMOOTH\<rparr>"

definition cornerTag :: VTag where
  "cornerTag = \<lparr>incomplete = False, xordinary = False, semiSharp = False,
                 nonManifold = False, rule = RULE_CORNER\<rparr>"

text \<open>One quad on four corner vertices.\<close>

definition quadLevel :: Level where
  "quadLevel = \<lparr>getNumVertices = 4, getNumFaces = 1,
                 getFaceVertices = (\<lambda>f. if f = 0 then [0, 1, 2, 3] else []),
                 getVertexFaces = (\<lambda>v. if v < 4 then [0] else []),
                 getVertexTag = (\<lambda>v. cornerTag)\<rparr>"

text \<open>A pentagon (face 0) and a quad (face 1) that share the vertices 0 and 4.\<close>

definition pentLevel :: Level where
  "pentLevel = \<lparr>getNumVertices = 7, getNumFaces = 2,
                 getFaceVertices = (\<lambda>f. if f = 0 then [0, 1, 2, 3, 4]
                                        else if f = 1 then [0, 4, 5, 6] else []),
                 getVertexFaces = (\<lambda>v. if v = 0 \<or> v = 4 then [0, 1]
                                       else if v < 4 then [0]
                                       else if v < 7 then [1] else []),
                 getVertexTag = (\<lambda>v. smoothTag)\<rparr>"

text \<open>A quad (face 0) and a hexagon (face 1) that share the vertices 1 and 2.\<close>

definition quadHexLevel :: Level where
  "quadHexLevel = \<lparr>getNumVertices = 8, getNumFaces = 2,
                    getFaceVertices = (\<lambda>f. if f = 0 then [0, 1, 2, 3]
                                           else if f = 1 then [1, 4, 5, 6, 7, 2] else []),
                    getVertexFaces = (\<lambda>v. if v = 1 \<or> v = 2 then [0, 1]
                                          else if v < 4 then [0]
                                          else if v < 8 then [1] else []),
                    getVertexTag = (\<lambda>v. smoothTag)\<rparr>"

definition regularValence :: "SdcType \<Rightarrow> int" where
  "regularValence t = (case t of TYPE_LOOP \<Rightarrow> 3 | _ \<Rightarrow> 4)"

definition quadRefiner :: "unit TopologyRefiner" where
  "quadRefiner = (newTopologyRefiner TYPE_CATMARK ())\<lparr>levels := [quadLevel]\<rparr>"

definition quadHexRefiner :: "unit TopologyRefiner" where
  "quadHexRefiner = (newTopologyRefiner TYPE_CATMARK ())\<lparr>levels := [quadHexLevel]\<rparr>"

text \<open>
  Two stand-ins for the arithmetic of \<^verbatim>\<open>refine\<close>: the child is empty, or it is a copy of
  the parent whose vertex count records the options of the call (4, plus 2 for
  \<open>sparse\<close>, plus 1 for \<open>faceTopologyOnly\<close>).
\<close>

definition refineToEmpty :: "unit refineFn" where
  "refineToEmpty r opts parent child = emptyLevel"

definition refineMarked :: "unit refineFn" where
  "refineMarked r opts parent child =
     parent\<lparr>getNumVertices :=
       4 + (if sparse opts then 2 else 0) + (if faceTopologyOnly opts then 1 else 0)\<rparr>"


definition twoLevelRefiner :: "unit TopologyRefiner" where
  "twoLevelRefiner =
     quadRefiner\<lparr>levels := [quadLevel, pentLevel], refinements := [emptyRefinement]\<rparr>"

section \<open>The conditions of the specification\<close>

text \<open>
  The condition under which the specification has a quad selected, in its words: the
  composite tag is not incomplete, and an extraordinary valence is present, or a
  semi-sharp crease is present, or the combined rule bits include Dart, or some incident
  vertex is non-manifold, or no incident vertex carries the Smooth rule bit.
\<close>

definition quadFeatureCondition :: "Level \<Rightarrow> nat \<Rightarrow> bool" where
  "quadFeatureCondition level face =
     (let faceVerts = getFaceVertices level face;
          tag = getFaceCompositeVTag level faceVerts
      in \<not> incomplete tag \<and>
         (xordinary tag \<or> semiSharp tag \<or> rule tag AND RULE_DART \<noteq> 0 \<or>
          (\<exists>v\<in>set faceVerts. nonManifold (getVertexTag level v)) \<or>
          (\<forall>v\<in>set faceVerts. rule (getVertexTag level v) AND RULE_SMOOTH = 0)))"

section \<open>The feature-adaptive selector: proofs\<close>

lemma selectVertexFaces_eq: "selectVertexFaces level v s = s \<union> set (getVertexFaces level v)"
proof -
  have "foldl (\<lambda>s g. selectFace g s) s gs = s \<union> set gs" for gs
    by (induction gs arbitrary: s) (auto simp: selectFace_def)
  then show ?thesis by (simp add: selectVertexFaces_def)
qed

lemma selectIncidentFaces_eq:
  "selectIncidentFaces level vs s = s \<union> (\<Union>v\<in>set vs. set (getVertexFaces level v))"
  unfolding selectIncidentFaces_def
  by (induction vs arbitrary: s) (auto simp: selectVertexFaces_eq)

lemma foldl_combine_flag:
  assumes "\<And>a b. P (combineVTag a b) = (P a \<or> P b)"
  shows "P (foldl (\<lambda>t w. combineVTag t (getVertexTag level w)) t0 vs) =
         (P t0 \<or> (\<exists>w\<in>set vs. P (getVertexTag level w)))"
  by (induction vs arbitrary: t0) (auto simp: assms)

lemma composite_flag:
  assumes "\<And>a b. P (combineVTag a b) = (P a \<or> P b)" and "vs \<noteq> []"
  shows "P (getFaceCompositeVTag level vs) = (\<exists>w\<in>set vs. P (getVertexTag level w))"
  using assms(2)
  by (cases vs) (auto simp: getFaceCompositeVTag_def foldl_combine_flag[of P, OF assms(1)])

lemma word_or_and_nonzero:
  "((a OR b) AND m \<noteq> 0) = (a AND m \<noteq> 0 \<or> b AND m \<noteq> 0)" for a b m :: "4 word"
  by (simp add: bit.conj_disj_distrib2 or_eq_0_iff)

lemma composite_nonManifold:
  "vs \<noteq> [] \<Longrightarrow> nonManifold (getFaceCompositeVTag level vs) =
     (\<exists>w\<in>set vs. nonManifold (getVertexTag level w))"
  by (rule composite_flag) (simp_all add: combineVTag_def)

lemma composite_rule:
  "vs \<noteq> [] \<Longrightarrow> (rule (getFaceCompositeVTag level vs) AND m \<noteq> 0) =
     (\<exists>w\<in>set vs. rule (getVertexTag level w) AND m \<noteq> 0)"
  by (rule composite_flag[where P="\<lambda>t. rule t AND m \<noteq> 0"])
     (simp_all add: combineVTag_def word_or_and_nonzero)

lemma quad_condition_code:
  assumes "length (getFaceVertices level face) = 4"
  shows "quadFeatureCondition level face =
           (\<not> incomplete (getFaceCompositeVTag level (getFaceVertices level face)) \<and>
            selectFaceFlag (getFaceCompositeVTag level (getFaceVertices level face)))"
proof -
  from assms have ne: "getFaceVertices level face \<noteq> []" by auto
  show ?thesis
    using composite_nonManifold[OF ne] composite_rule[OF ne, where m = RULE_SMOOTH]
    by (auto simp: quadFeatureCondition_def selectFaceFlag_def Let_def)
qed

lemma quad_step:
  assumes "length (getFaceVertices level face) = 4"
  shows "selectorFaceStep level face s =
           (if quadFeatureCondition level face then selectFace face s else s)"
  using assms by (auto simp: quad_condition_code selectorFaceStep_def Let_def)

lemma nonquad_step:
  assumes "length (getFaceVertices level face) \<noteq> 4"
  shows "selectorFaceStep level face s =
           s \<union> (\<Union>v\<in>set (getFaceVertices level face). set (getVertexFaces level v))"
  using assms by (simp add: selectorFaceStep_def selectIncidentFaces_eq)

lemma step_union: "selectorFaceStep level face s = s \<union> selectorFaceStep level face {}"
  by (cases "length (getFaceVertices level face) = 4")
     (auto simp: quad_step nonquad_step selectFace_def)

lemma selector_fold:
  "foldl (\<lambda>s face. selectorFaceStep level face s) s fs =
     s \<union> (\<Union>f\<in>set fs. selectorFaceStep level f {})"
proof (induction fs arbitrary: s)
  case Nil
  show ?case by simp
next
  case (Cons f fs)
  show ?case using step_union[of level f s] by (auto simp: Cons.IH)
qed

lemma selector_pass:
  "catmarkFeatureAdaptiveSelector level s =
     s \<union> (\<Union>f\<in>{..<getNumFaces level}. selectorFaceStep level f {})"
  by (simp add: catmarkFeatureAdaptiveSelector_def selector_fold atLeast0LessThan)

text \<open>
  Claim C2, as amended.  For a face of the examined level with four vertices, the
  examination of that face records it exactly when the condition of the specification
  holds: the composite tag is not incomplete and one of the five features is present.
  After a full pass from an empty selector the face is selected exactly when that condition
  holds or the face is incident to a vertex of a face of the level that is not a quad.
\<close>
theorem quad_face_selection:
  assumes "face < getNumFaces level" and "length (getFaceVertices level face) = 4"
  shows "selectorFaceStep level face selector =
           (if quadFeatureCondition level face then selectFace face selector else selector) \<and>
         (face \<in> catmarkFeatureAdaptiveSelector level {} \<longleftrightarrow>
            quadFeatureCondition level face \<or>
            (\<exists>f<getNumFaces level. length (getFaceVertices level f) \<noteq> 4 \<and>
               (\<exists>v\<in>set (getFaceVertices level f). face \<in> set (getVertexFaces level v))))"
proof
  show "selectorFaceStep level face selector =
           (if quadFeatureCondition level face then selectFace face selector else selector)"
    by (rule quad_step[OF assms(2)])
next
  have own: "face \<in> selectorFaceStep level face {} \<longleftrightarrow> quadFeatureCondition level face"
    by (simp add: quad_step[OF assms(2)] selectFace_def)
  have other: "face \<in> selectorFaceStep level f {} \<longleftrightarrow>
      (if length (getFaceVertices level f) \<noteq> 4
       then \<exists>v\<in>set (getFaceVertices level f). face \<in> set (getVertexFaces level v)
       else f = face \<and> quadFeatureCondition level face)" for f
    by (cases "length (getFaceVertices level f) = 4")
       (auto simp: quad_step nonquad_step selectFace_def)
  show "face \<in> catmarkFeatureAdaptiveSelector level {} \<longleftrightarrow>
            quadFeatureCondition level face \<or>
            (\<exists>f<getNumFaces level. length (getFaceVertices level f) \<noteq> 4 \<and>
               (\<exists>v\<in>set (getFaceVertices level f). face \<in> set (getVertexFaces level v)))"
  proof -
    have "face \<in> catmarkFeatureAdaptiveSelector level {} \<longleftrightarrow>
            (\<exists>f<getNumFaces level. face \<in> selectorFaceStep level f {})"
      by (auto simp: selector_pass)
    also have "\<dots> \<longleftrightarrow> quadFeatureCondition level face \<or>
            (\<exists>f<getNumFaces level. length (getFaceVertices level f) \<noteq> 4 \<and>
               (\<exists>v\<in>set (getFaceVertices level f). face \<in> set (getVertexFaces level v)))"
      (is "?L \<longleftrightarrow> ?C \<or> ?N")
    proof
      assume ?L
      then obtain f where f: "f < getNumFaces level" "face \<in> selectorFaceStep level f {}"
        by blast
      show "?C \<or> ?N"
      proof (cases "length (getFaceVertices level f) = 4")
        case True
        with f(2) have "quadFeatureCondition level face" by (simp add: other)
        then show ?thesis ..
      next
        case False
        with f have ?N by (auto simp: other)
        then show ?thesis ..
      qed
    next
      assume "?C \<or> ?N"
      then show ?L
      proof
        assume ?C
        with own assms(1) show ?L by blast
      next
        assume ?N
        then obtain f where "f < getNumFaces level" "length (getFaceVertices level f) \<noteq> 4"
          "\<exists>v\<in>set (getFaceVertices level f). face \<in> set (getVertexFaces level v)"
          by blast
        then show ?L by (auto simp: other)
      qed
    qed
    finally show ?thesis .
  qed
qed

text \<open>The single quad on four corner vertices is selected by its tags.\<close>
theorem quad_face_selection_witness:
  "0 < getNumFaces quadLevel \<and> length (getFaceVertices quadLevel 0) = 4 \<and>
   quadFeatureCondition quadLevel 0 \<and>
   selectorFaceStep quadLevel 0 {} = {0} \<and>
   0 \<in> catmarkFeatureAdaptiveSelector quadLevel {}"
proof -
  have h1: "0 < getNumFaces quadLevel" by (simp add: quadLevel_def)
  have h2: "length (getFaceVertices quadLevel 0) = 4" by (simp add: quadLevel_def)
  have c: "quadFeatureCondition quadLevel 0"
    by (simp add: quadFeatureCondition_def quadLevel_def getFaceCompositeVTag_def
        combineVTag_def cornerTag_def RULE_CORNER_def RULE_SMOOTH_def RULE_DART_def)
  from quad_face_selection[OF h1 h2, of "{}"] h1 h2 c show ?thesis
    by (simp add: selectFace_def)
qed

text \<open>
  Claim C2 as it is written fails on the quad beside a pentagon: its composite tag is
  complete and shows none of the five features, and the full pass selects it, through the
  pentagon.
\<close>
theorem quad_selected_by_neighbour_counterexample:
  "length (getFaceVertices pentLevel 1) = 4 \<and>
   1 \<in> catmarkFeatureAdaptiveSelector pentLevel {} \<and>
   \<not> (\<not> incomplete (getFaceCompositeVTag pentLevel (getFaceVertices pentLevel 1)) \<and>
       (xordinary (getFaceCompositeVTag pentLevel (getFaceVertices pentLevel 1)) \<or>
        semiSharp (getFaceCompositeVTag pentLevel (getFaceVertices pentLevel 1)) \<or>
        rule (getFaceCompositeVTag pentLevel (getFaceVertices pentLevel 1)) AND RULE_DART \<noteq> 0 \<or>
        nonManifold (getFaceCompositeVTag pentLevel (getFaceVertices pentLevel 1)) \<or>
        rule (getFaceCompositeVTag pentLevel (getFaceVertices pentLevel 1)) AND RULE_SMOOTH = 0))"
proof -
  have sel: "1 \<in> catmarkFeatureAdaptiveSelector pentLevel {}"
    by (simp add: selector_pass nonquad_step pentLevel_def lessThan_Suc numeral_2_eq_2)
  have tag: "getFaceCompositeVTag pentLevel (getFaceVertices pentLevel 1) = smoothTag"
    by (simp add: pentLevel_def getFaceCompositeVTag_def combineVTag_def smoothTag_def)
  have len: "length (getFaceVertices pentLevel 1) = 4"
    by (simp add: pentLevel_def)
  show ?thesis
    unfolding tag using sel len
    by (simp add: smoothTag_def RULE_SMOOTH_def RULE_DART_def)
qed

text \<open>
  Claim C3.  For a face of the examined level whose vertex count is not four, the
  examination of the face selects every face incident to every vertex of the face and
  nothing else, whatever the vertex tags are; after a full pass all these faces are in the
  selection.  Where the two adjacency accessors of the level agree (each face is among
  the faces of each of its vertices), every face of the level that shares a vertex with
  the face is selected, the face itself included as soon as it has a vertex.
\<close>
theorem nonquad_face_selection:
  assumes "face < getNumFaces level" and "length (getFaceVertices level face) \<noteq> 4"
  shows "selectorFaceStep level face selector =
           selector \<union> (\<Union>v\<in>set (getFaceVertices level face). set (getVertexFaces level v)) \<and>
         selectorFaceStep (level\<lparr>getVertexTag := tags\<rparr>) face selector =
           selectorFaceStep level face selector \<and>
         (\<Union>v\<in>set (getFaceVertices level face). set (getVertexFaces level v))
           \<subseteq> catmarkFeatureAdaptiveSelector level selector \<and>
         ((\<forall>g<getNumFaces level. \<forall>v\<in>set (getFaceVertices level g). g \<in> set (getVertexFaces level v))
           \<longrightarrow> (\<forall>g<getNumFaces level.
                  set (getFaceVertices level g) \<inter> set (getFaceVertices level face) \<noteq> {}
                    \<longrightarrow> g \<in> catmarkFeatureAdaptiveSelector level selector))"
proof -
  let ?N = "\<Union>v\<in>set (getFaceVertices level face). set (getVertexFaces level v)"
  have a: "selectorFaceStep level face selector = selector \<union> ?N"
    by (rule nonquad_step[OF assms(2)])
  have b: "selectorFaceStep (level\<lparr>getVertexTag := tags\<rparr>) face selector =
           selectorFaceStep level face selector"
    using assms(2) by (simp add: nonquad_step)
  have c: "?N \<subseteq> catmarkFeatureAdaptiveSelector level selector"
  proof -
    have "selectorFaceStep level face {} = ?N" by (simp add: nonquad_step[OF assms(2)])
    with assms(1) show ?thesis unfolding selector_pass by blast
  qed
  have d: "g \<in> catmarkFeatureAdaptiveSelector level selector"
    if ok: "\<forall>g<getNumFaces level. \<forall>v\<in>set (getFaceVertices level g). g \<in> set (getVertexFaces level v)"
      and g: "g < getNumFaces level"
      and sh: "set (getFaceVertices level g) \<inter> set (getFaceVertices level face) \<noteq> {}" for g
  proof -
    from sh obtain v where v: "v \<in> set (getFaceVertices level g)" "v \<in> set (getFaceVertices level face)"
      by blast
    from ok g v(1) have "g \<in> set (getVertexFaces level v)" by blast
    with v(2) have "g \<in> ?N" by blast
    with c show ?thesis by blast
  qed
  from a b c d show ?thesis by blast
qed

text \<open>The pentagon and the quad beside it.\<close>
theorem nonquad_face_selection_witness:
  "0 < getNumFaces pentLevel \<and> length (getFaceVertices pentLevel 0) \<noteq> 4 \<and>
   selectorFaceStep pentLevel 0 {} = {0, 1} \<and>
   0 \<in> catmarkFeatureAdaptiveSelector pentLevel {} \<and>
   1 \<in> catmarkFeatureAdaptiveSelector pentLevel {}"
proof -
  have h1: "0 < getNumFaces pentLevel" by (simp add: pentLevel_def)
  have h2: "length (getFaceVertices pentLevel 0) \<noteq> 4" by (simp add: pentLevel_def)
  have ok: "\<forall>g<getNumFaces pentLevel. \<forall>v\<in>set (getFaceVertices pentLevel g). g \<in> set (getVertexFaces pentLevel v)"
    by (simp add: pentLevel_def numeral_2_eq_2 less_Suc_eq)
  have n: "(\<Union>v\<in>set (getFaceVertices pentLevel 0). set (getVertexFaces pentLevel v)) = {0, 1}"
    by (auto simp: pentLevel_def)
  have sh0: "set (getFaceVertices pentLevel 0) \<inter> set (getFaceVertices pentLevel 0) \<noteq> {}"
    by (simp add: pentLevel_def)
  have sh1: "set (getFaceVertices pentLevel 1) \<inter> set (getFaceVertices pentLevel 0) \<noteq> {}"
    by (simp add: pentLevel_def)
  have g1: "1 < getNumFaces pentLevel" by (simp add: pentLevel_def)
  from nonquad_face_selection[OF h1 h2, of "{}" "getVertexTag pentLevel"] ok h1 g1 sh0 sh1 h2 n
  show ?thesis by auto
qed

section \<open>Ptex indices, Unrefine and Clear: proofs\<close>

lemma ptex_fold:
  assumes "k \<le> length v"
  shows "foldl (ptexStep rv lv) (v, 0) [0..<k] =
           (map (\<lambda>i. if i < k then (\<Sum>j<i. ptexFaceCount rv lv j) else v ! i) [0..<length v],
            (\<Sum>j<k. ptexFaceCount rv lv j))"
  using assms
proof (induction k)
  case 0
  show ?case by (simp add: map_nth)
next
  case (Suc k)
  then have k: "k < length v" by simp
  have "(map (\<lambda>i. if i < k then (\<Sum>j<i. ptexFaceCount rv lv j) else v ! i) [0..<length v])
          [k := (\<Sum>j<k. ptexFaceCount rv lv j)] =
        map (\<lambda>i. if i < Suc k then (\<Sum>j<i. ptexFaceCount rv lv j) else v ! i) [0..<length v]"
    by (rule nth_equalityI) (auto simp: nth_list_update less_Suc_eq)
  with Suc k show ?case by (simp add: ptexStep_def)
qed

lemma computePtexIndices_eq:
  "computePtexIndices rv lv indices =
     map (\<lambda>i. \<Sum>j<i. ptexFaceCount rv lv j) [0..<getNumFaces lv + 1]"
proof -
  let ?n = "getNumFaces lv"
  let ?v = "resizeVec (?n + 1) 0 indices"
  have len: "length ?v = ?n + 1" by (simp add: resizeVec_def)
  have "(map (\<lambda>i. if i < ?n then (\<Sum>j<i. ptexFaceCount rv lv j) else ?v ! i) [0..<?n + 1])
          [?n := (\<Sum>j<?n. ptexFaceCount rv lv j)] =
        map (\<lambda>i. \<Sum>j<i. ptexFaceCount rv lv j) [0..<?n + 1]"
    by (rule nth_equalityI) (auto simp: nth_list_update less_Suc_eq nth_append)
  then show ?thesis
    using ptex_fold[of ?n ?v rv lv] len
    by (simp add: computePtexIndices_def Let_def del: upt_Suc)
qed


lemma initializePtexIndices_eq:
  "initializePtexIndices rfv st =
     (case levels st of [] \<Rightarrow> Inl OutOfBounds
      | level0 # _ \<Rightarrow> Inr (st\<lparr>ptexIndices := computePtexIndices (rfv (subdivType st)) level0 (ptexIndices st)\<rparr>))"
  by (cases "subdivType st") (simp_all add: initializePtexIndices_def split: list.splits)



text \<open>
  Claim C9 is right and the code misses a case.  The test \<^verbatim>\<open>f < size - 1\<close> guards the
  upper end of the range only: for the face index -1 the method reads
  \<^verbatim>\<open>_ptexIndices[-1]\<close>, outside the vector, where the claim has it return -1.
\<close>
theorem GetPtexIndex_negative_fault:
  "GetPtexIndex regularValence quadHexRefiner (- 1) = Inl OutOfBounds"
  by (simp add: GetPtexIndex_def ensurePtexIndices_def initializePtexIndices_eq
      quadHexRefiner_def newTopologyRefiner_def computePtexIndices_eq)

text \<open>What \<open>GetPtexIndex\<close> returns on a hierarchy with a base level and an empty cache.\<close>
lemma GetPtexIndex_in_range:
  assumes "levels st = level0 # rest" and "ptexIndices st = []"
  shows "GetPtexIndex rfv st f =
     (if f < 0 then Inl OutOfBounds
      else if f < int (getNumFaces level0)
      then Inr (\<Sum>j<nat f. ptexFaceCount (rfv (subdivType st)) level0 j,
                st\<lparr>ptexIndices := computePtexIndices (rfv (subdivType st)) level0 []\<rparr>)
      else Inr (- 1, st\<lparr>ptexIndices := computePtexIndices (rfv (subdivType st)) level0 []\<rparr>))"
proof -
  have nth: "computePtexIndices r level0 [] ! nat f = (\<Sum>j<nat f. ptexFaceCount r level0 j)"
    if "0 \<le> f" "f < int (getNumFaces level0)" for r
    using that by (simp add: computePtexIndices_eq nth_append del: upt_Suc)
  show ?thesis
    using assms nth[of "rfv (subdivType st)"]
    by (auto simp: GetPtexIndex_def ensurePtexIndices_def initializePtexIndices_eq
        computePtexIndices_eq simp del: upt_Suc)
qed

text \<open>
  Claim C10.  With an empty cache, both Ptex queries read \<^verbatim>\<open>_levels[0]\<close>: they fault
  when the level sequence is empty, and \<open>GetNumPtexFaces\<close> returns a value when it is
  not (so does \<open>GetPtexIndex\<close> for a face index that is not negative).  A freshly
  constructed hierarchy has a level; after \<open>Clear\<close> it has none, and both queries fault.
\<close>
theorem ptex_queries_need_level0:
  assumes "ptexIndices st = []"
  shows "(levels st = [] \<longrightarrow>
            GetNumPtexFaces rfv st = Inl OutOfBounds \<and> GetPtexIndex rfv st f = Inl OutOfBounds) \<and>
         (levels st \<noteq> [] \<longrightarrow>
            (\<exists>n st'. GetNumPtexFaces rfv st = Inr (n, st')) \<and>
            (0 \<le> f \<longrightarrow> (\<exists>n st'. GetPtexIndex rfv st f = Inr (n, st')))) \<and>
         levels (newTopologyRefiner schemeType schemeOptions) \<noteq> [] \<and>
         levels (Clear st) = [] \<and>
         GetNumPtexFaces rfv (Clear st) = Inl OutOfBounds \<and>
         GetPtexIndex rfv (Clear st) f = Inl OutOfBounds"
proof -
  have e: "levels s = [] \<Longrightarrow> ptexIndices s = [] \<Longrightarrow>
        GetNumPtexFaces rfv s = Inl OutOfBounds \<and> GetPtexIndex rfv s f = Inl OutOfBounds"
    for s :: "'a TopologyRefiner"
    by (simp add: GetNumPtexFaces_def GetPtexIndex_def ensurePtexIndices_def
        initializePtexIndices_eq)
  have c: "levels (Clear st) = []" "ptexIndices (Clear st) = []"
    using assms by (simp_all add: Clear_def)
  have n: "\<exists>n st'. GetNumPtexFaces rfv st = Inr (n, st')" if "levels st \<noteq> []"
  proof -
    from that obtain l0 rest where l: "levels st = l0 # rest" by (cases "levels st") auto
    have "computePtexIndices (rfv (subdivType st)) l0 [] \<noteq> []"
      by (simp add: computePtexIndices_eq)
    then show ?thesis using l assms
      by (simp add: GetNumPtexFaces_def ensurePtexIndices_def initializePtexIndices_eq
          split: list.splits)
  qed
  have g: "\<exists>n st'. GetPtexIndex rfv st f = Inr (n, st')" if "levels st \<noteq> []" "0 \<le> f"
  proof -
    from that obtain l0 rest where l: "levels st = l0 # rest" by (cases "levels st") auto
    show ?thesis using GetPtexIndex_in_range[OF l assms, of rfv f] that(2) by auto
  qed
  have nw: "levels (newTopologyRefiner schemeType schemeOptions) \<noteq> []"
    by (simp add: newTopologyRefiner_def resizeVec_def)
  show ?thesis using e[OF _ assms] e[OF c] c(1) n g nw by blast
qed

text \<open>The hierarchy of the single quad, before and after \<open>Clear\<close>.\<close>
theorem ptex_queries_need_level0_witness:
  "ptexIndices quadRefiner = [] \<and> ptexIndices (Clear quadRefiner) = [] \<and>
   levels quadRefiner \<noteq> [] \<and>
   (\<exists>n st'. GetNumPtexFaces regularValence quadRefiner = Inr (n, st')) \<and>
   levels (Clear quadRefiner) = [] \<and>
   GetNumPtexFaces regularValence (Clear quadRefiner) = Inl OutOfBounds \<and>
   GetPtexIndex regularValence (Clear quadRefiner) 0 = Inl OutOfBounds"
proof -
  have h: "ptexIndices quadRefiner = []"
    by (simp add: quadRefiner_def newTopologyRefiner_def)
  have h': "ptexIndices (Clear quadRefiner) = []"
    by (simp add: Clear_def h)
  have l: "levels quadRefiner \<noteq> []" by (simp add: quadRefiner_def)
  from ptex_queries_need_level0[OF h, of regularValence 0 TYPE_CATMARK "()"]
       ptex_queries_need_level0[OF h', of regularValence 0 TYPE_CATMARK "()"]
  show ?thesis using h h' l by simp
qed

text \<open>
  Claim C6, as amended.  \<open>Unrefine\<close> empties the refinement sequence.  When the level
  sequence is not empty it leaves exactly its first element, unchanged; when the level
  sequence is empty, as it is after \<open>Clear\<close>, it leaves it empty.
\<close>
theorem Unrefine_levels:
  "refinements (Unrefine st) = [] \<and>
   (levels st \<noteq> [] \<longrightarrow> levels (Unrefine st) = [hd (levels st)]) \<and>
   (levels st = [] \<longrightarrow> levels (Unrefine st) = [])"
  by (cases "levels st") (simp_all add: Unrefine_def resizeVec_def Let_def)

text \<open>A hierarchy of two levels, and the same hierarchy after \<open>Clear\<close>.\<close>
theorem Unrefine_levels_witness:
  "levels twoLevelRefiner \<noteq> [] \<and> refinements (Unrefine twoLevelRefiner) = [] \<and>
   levels (Unrefine twoLevelRefiner) = [quadLevel] \<and>
   levels (Clear twoLevelRefiner) = [] \<and> levels (Unrefine (Clear twoLevelRefiner)) = []"
proof -
  have l: "levels twoLevelRefiner = [quadLevel, pentLevel]" by (simp add: twoLevelRefiner_def)
  have c: "levels (Clear twoLevelRefiner) = []" by (simp add: Clear_def)
  from Unrefine_levels[of twoLevelRefiner] Unrefine_levels[of "Clear twoLevelRefiner"]
  show ?thesis using l c by simp
qed

text \<open>Claim C6 as it is written fails after \<open>Clear\<close>: no level is left, not one.\<close>
theorem Unrefine_after_Clear_counterexample:
  "length (levels (Unrefine (Clear quadRefiner))) \<noteq> 1"
  by (simp add: Unrefine_def Clear_def)




section \<open>The refinement driver: proofs\<close>

lemma refSelected_adaptiveSelect:
  "refSelected (adaptiveSelect i st) = catmarkFeatureAdaptiveSelector (levels st ! nat (i - 1)) {}"
  by (simp add: adaptiveSelect_def Let_def)

text \<open>
  One iteration of the adaptive loop, read off the function: with an empty selection over
  the level at \<open>i - 1\<close> the loop ends with the trimmed hierarchy; otherwise the refinement
  at \<open>i - 1\<close> is refined and the loop goes on with \<open>i + 1\<close>.
\<close>

lemma adaptiveLoop_trim:
  assumes "i \<le> n" and "1 \<le> i" and "nat i < length (levels st)"
    and "nat (i - 1) < length (refinements st)"
    and "isSelectionEmpty (catmarkFeatureAdaptiveSelector (levels st ! nat (i - 1)) {})"
  shows "adaptiveLoop rf n opts i st = Inr (adaptiveTrim i (adaptiveSelect i st) st)"
  using assms by (subst adaptiveLoop.simps) (simp add: refSelected_adaptiveSelect Let_def)

lemma adaptiveLoop_refine:
  assumes "i \<le> n" and "1 \<le> i" and "nat i < length (levels st)"
    and "nat (i - 1) < length (refinements st)"
    and "\<not> isSelectionEmpty (catmarkFeatureAdaptiveSelector (levels st ! nat (i - 1)) {})"
  shows "adaptiveLoop rf n opts i st =
           adaptiveLoop rf n (opts\<lparr>faceTopologyOnly := False\<rparr>) (i + 1)
             (adaptiveRefine rf (opts\<lparr>faceTopologyOnly := False\<rparr>) i (adaptiveSelect i st) st)"
  using assms by (subst adaptiveLoop.simps) (simp add: refSelected_adaptiveSelect Let_def)

lemma adaptiveRefine_fields:
  "length (levels (adaptiveRefine rf opts i r st)) = length (levels st)"
  "length (refinements (adaptiveRefine rf opts i r st)) = length (refinements st)"
  "isUniform (adaptiveRefine rf opts i r st) = isUniform st"
  "maxLevel (adaptiveRefine rf opts i r st) = maxLevel st"
  "refineTrace (adaptiveRefine rf opts i r st) = refineTrace st @ [(nat (i - 1), opts)]"
  "j \<noteq> nat i \<Longrightarrow> levels (adaptiveRefine rf opts i r st) ! j = levels st ! j"
  by (simp_all add: adaptiveRefine_def)

lemma adaptiveTrim_fields:
  "maxLevel (adaptiveTrim i r st) = i - 1"
  "isUniform (adaptiveTrim i r st) = isUniform st"
  "refineTrace (adaptiveTrim i r st) = refineTrace st"
  "1 \<le> i \<Longrightarrow> nat i \<le> length (levels st) \<Longrightarrow> levels (adaptiveTrim i r st) = take (nat i) (levels st)"
  "1 \<le> i \<Longrightarrow> nat (i - 1) \<le> length (refinements st) \<Longrightarrow>
     length (refinements (adaptiveTrim i r st)) = nat (i - 1)"
  by (simp_all add: adaptiveTrim_def resizeVec_def Let_def)

text \<open>
  The invariant of the adaptive loop.  From iteration \<open>i\<close> on, the loop returns; \<open>k\<close> is
  the last iteration that refined.  The levels below \<open>i\<close> are never written again, so the
  level at \<open>j - 1\<close> of the result is the level that iteration \<open>j\<close> examined.
\<close>
lemma adaptiveLoop_result:
  assumes "1 \<le> i" and "i \<le> n + 1"
    and "length (levels st) = nat n + 1" and "length (refinements st) = nat n"
    and "maxLevel st = n"
  shows "\<exists>st' k. adaptiveLoop rf n opts i st = Inr st' \<and> i - 1 \<le> k \<and> k \<le> n \<and>
           maxLevel st' = k \<and>
           length (levels st') = nat k + 1 \<and>
           length (refinements st') = nat k \<and>
           isUniform st' = isUniform st \<and>
           refineTrace st' = refineTrace st @
             map (\<lambda>j. (nat (j - 1), opts\<lparr>faceTopologyOnly := False\<rparr>)) [i..k] \<and>
           (\<forall>j<nat i. levels st' ! j = levels st ! j) \<and>
           (\<forall>j. i \<le> j \<and> j \<le> k \<longrightarrow>
              \<not> isSelectionEmpty (catmarkFeatureAdaptiveSelector (levels st' ! nat (j - 1)) {})) \<and>
           (k < n \<longrightarrow>
              isSelectionEmpty (catmarkFeatureAdaptiveSelector (levels st' ! nat k) {}))"
  using assms
proof (induction rf n opts i st rule: adaptiveLoop.induct)
  case (1 rf n opts i st)
  let ?opts1 = "opts\<lparr>faceTopologyOnly := False\<rparr>"
  let ?r = "adaptiveSelect i st"
  let ?sel = "catmarkFeatureAdaptiveSelector (levels st ! nat (i - 1)) {}"
  show ?case
  proof (cases "i \<le> n")
    case False
    with "1.prems" have in1: "i = n + 1" by simp
    have run: "adaptiveLoop rf n opts i st = Inr st"
      using False by (subst adaptiveLoop.simps) simp
    have up: "[i..n] = []" using in1 by simp
    show ?thesis
      apply (rule exI[of _ st], rule exI[of _ n])
      using "1.prems" in1 run up by auto
  next
    case True
    with "1.prems" have rng: "1 \<le> i \<and> nat i < length (levels st) \<and>
        nat (i - 1) < length (refinements st)"
      by auto
    show ?thesis
    proof (cases "isSelectionEmpty ?sel")
      case empty: True
      let ?st' = "adaptiveTrim i ?r st"
      have run: "adaptiveLoop rf n opts i st = Inr ?st'"
        using True rng empty
        by (subst adaptiveLoop.simps) (simp add: refSelected_adaptiveSelect Let_def)
      have lv: "levels ?st' = take (nat i) (levels st)"
        using rng by (simp add: adaptiveTrim_fields)
      have rl: "length (refinements ?st') = nat (i - 1)"
        using rng by (simp add: adaptiveTrim_fields)
      have up: "[i..i - 1] = []" by simp
      have lk: "levels ?st' ! nat (i - 1) = levels st ! nat (i - 1)"
        using rng by (simp add: lv)
      show ?thesis
        apply (rule exI[of _ ?st'], rule exI[of _ "i - 1"])
        using run rng True lv rl up lk empty "1.prems"
        by (auto simp: adaptiveTrim_fields(1-3))
    next
      case nonempty: False
      let ?st1 = "adaptiveRefine rf ?opts1 i ?r st"
      have run: "adaptiveLoop rf n opts i st = adaptiveLoop rf n ?opts1 (i + 1) ?st1"
        using True rng nonempty
        by (subst adaptiveLoop.simps) (simp add: refSelected_adaptiveSelect Let_def)
      have ne': "\<not> isSelectionEmpty (refSelected ?r)"
        using nonempty by (simp add: refSelected_adaptiveSelect)
      have pre: "1 \<le> i + 1" "i + 1 \<le> n + 1"
        "length (levels ?st1) = nat n + 1" "length (refinements ?st1) = nat n"
        "maxLevel ?st1 = n"
        using True "1.prems" by (simp_all add: adaptiveRefine_fields)
      from "1.IH"[OF True rng refl refl ne' pre]
      obtain st' k where r:
        "adaptiveLoop rf n ?opts1 (i + 1) ?st1 = Inr st'" "i \<le> k" "k \<le> n"
        "maxLevel st' = k"
        "length (levels st') = nat k + 1"
        "length (refinements st') = nat k"
        "isUniform st' = isUniform ?st1"
        "refineTrace st' = refineTrace ?st1 @
             map (\<lambda>j. (nat (j - 1), ?opts1\<lparr>faceTopologyOnly := False\<rparr>)) [i + 1..k]"
        "\<forall>j<nat (i + 1). levels st' ! j = levels ?st1 ! j"
        "\<forall>j. i + 1 \<le> j \<and> j \<le> k \<longrightarrow>
              \<not> isSelectionEmpty (catmarkFeatureAdaptiveSelector (levels st' ! nat (j - 1)) {})"
        "k < n \<longrightarrow>
              isSelectionEmpty (catmarkFeatureAdaptiveSelector (levels st' ! nat k) {})"
        by auto
      have up: "[i..k] = i # [i + 1..k]" using r(2) by (simp add: upto_rec1)
      have tr: "refineTrace st' = refineTrace st @
             map (\<lambda>j. (nat (j - 1), ?opts1)) [i..k]"
        using r(8) by (simp add: up adaptiveRefine_fields)
      have low: "levels st' ! j = levels st ! j" if "j < nat i" for j
      proof -
        from that rng have "j < nat (i + 1)" "j \<noteq> nat i" by auto
        with r(9) show ?thesis by (simp add: adaptiveRefine_fields)
      qed
      have sel: "\<not> isSelectionEmpty (catmarkFeatureAdaptiveSelector (levels st' ! nat (j - 1)) {})"
        if "i \<le> j" "j \<le> k" for j
      proof (cases "j = i")
        case True
        from rng have "nat (i - 1) < nat i" by auto
        from low[OF this] nonempty True show ?thesis by simp
      next
        case False
        with that r(10) show ?thesis by auto
      qed
      show ?thesis
        apply (rule exI[of _ st'], rule exI[of _ k])
        using run r(1-6) r(11) tr low sel r(7)
        by (auto simp: adaptiveRefine_fields)
    qed
  qed
qed


lemma adaptiveSelect_eq:
  "adaptiveSelect i st =
     (initialize (nat (i - 1)) (nat i)
        (setScheme (subdivType st) (subdivOptions st) (refinements st ! nat (i - 1))))
     \<lparr>refSelected := catmarkFeatureAdaptiveSelector (levels st ! nat (i - 1)) {}\<rparr>"
  by (simp add: adaptiveSelect_def Let_def)

lemma adaptiveRefine_more:
  "subdivType (adaptiveRefine rf opts i r st) = subdivType st"
  "subdivOptions (adaptiveRefine rf opts i r st) = subdivOptions st"
  "j \<noteq> nat (i - 1) \<Longrightarrow> refinements (adaptiveRefine rf opts i r st) ! j = refinements st ! j"
  "nat (i - 1) < length (refinements st) \<Longrightarrow>
     refinements (adaptiveRefine rf opts i r st) ! nat (i - 1) = r"
  "nat i < length (levels st) \<Longrightarrow>
     levels (adaptiveRefine rf opts i r st) ! nat i =
       rf r opts (levels st ! nat (i - 1)) (levels st ! nat i)"
  by (simp_all add: adaptiveRefine_def)

lemma adaptiveTrim_more:
  "subdivType (adaptiveTrim i r st) = subdivType st"
  "subdivOptions (adaptiveTrim i r st) = subdivOptions st"
  "1 \<le> i \<Longrightarrow> nat (i - 1) \<le> length (refinements st) \<Longrightarrow> j < nat (i - 1) \<Longrightarrow>
     refinements (adaptiveTrim i r st) ! j = refinements st ! j"
  by (simp_all add: adaptiveTrim_def resizeVec_def Let_def)

text \<open>
  What the adaptive loop leaves in the two sequences.  For every iteration \<open>j\<close> that
  refined, the refinement at \<open>j - 1\<close> is the one that was bound, initialised and marked by
  the selector over the level at \<open>j - 1\<close>, and the level at \<open>j\<close> is what \<open>rf\<close> made of it,
  called with the options of the loop after \<open>faceTopologyOnly\<close> was reset.
\<close>

lemma adaptiveLoop_levels:
  assumes "1 \<le> i" and "i \<le> n + 1"
    and "length (levels st) = nat n + 1" and "length (refinements st) = nat n"
    and "maxLevel st = n"
    and "adaptiveLoop rf n opts i st = Inr st'"
  shows "(\<forall>j<nat i. levels st' ! j = levels st ! j) \<and>
         (\<forall>j<nat (i - 1). refinements st' ! j = refinements st ! j) \<and>
         subdivType st' = subdivType st \<and> subdivOptions st' = subdivOptions st \<and>
         (\<forall>j. i \<le> j \<and> j \<le> maxLevel st' \<longrightarrow>
            refinements st' ! nat (j - 1) =
              (initialize (nat (j - 1)) (nat j)
                 (setScheme (subdivType st) (subdivOptions st) (refinements st ! nat (j - 1))))
              \<lparr>refSelected := catmarkFeatureAdaptiveSelector (levels st' ! nat (j - 1)) {}\<rparr> \<and>
            levels st' ! nat j =
              rf (refinements st' ! nat (j - 1)) (opts\<lparr>faceTopologyOnly := False\<rparr>)
                 (levels st' ! nat (j - 1)) (levels st ! nat j))"
  using assms
proof (induction rf n opts i st rule: adaptiveLoop.induct)
  case (1 rf n opts i st)
  let ?opts1 = "opts\<lparr>faceTopologyOnly := False\<rparr>"
  let ?r = "adaptiveSelect i st"
  let ?sel = "catmarkFeatureAdaptiveSelector (levels st ! nat (i - 1)) {}"
  show ?case
  proof (cases "i \<le> n")
    case False
    have "adaptiveLoop rf n opts i st = Inr st"
      using False by (subst adaptiveLoop.simps) simp
    with "1.prems" have "st' = st" by simp
    with False "1.prems" show ?thesis by auto
  next
    case True
    with "1.prems" have rng: "1 \<le> i \<and> nat i < length (levels st) \<and>
        nat (i - 1) < length (refinements st)"
      by auto
    show ?thesis
    proof (cases "isSelectionEmpty ?sel")
      case empty: True
      from adaptiveLoop_trim[of i n st rf opts] True rng empty "1.prems"
      have st': "st' = adaptiveTrim i ?r st" by simp
      have lv: "levels st' = take (nat i) (levels st)"
        using rng by (simp add: st' adaptiveTrim_fields)
      have rf: "\<forall>j<nat (i - 1). refinements st' ! j = refinements st ! j"
        using rng by (simp add: st' adaptiveTrim_more)
      have k: "maxLevel st' = i - 1" by (simp add: st' adaptiveTrim_fields)
      have a: "\<forall>j<nat i. levels st' ! j = levels st ! j" by (simp add: lv)
      have ty: "subdivType st' = subdivType st" "subdivOptions st' = subdivOptions st"
        by (simp_all add: st' adaptiveTrim_more)
      have vac: "\<not> (i \<le> j \<and> j \<le> maxLevel st')" for j using k by simp
      show ?thesis
        using a rf ty vac by blast
    next
      case nonempty: False
      let ?st1 = "adaptiveRefine rf ?opts1 i ?r st"
      from adaptiveLoop_refine[of i n st rf opts] True rng nonempty "1.prems"
      have run: "adaptiveLoop rf n ?opts1 (i + 1) ?st1 = Inr st'" by simp
      have ne': "\<not> isSelectionEmpty (refSelected ?r)"
        using nonempty by (simp add: refSelected_adaptiveSelect)
      have pre: "1 \<le> i + 1" "i + 1 \<le> n + 1"
        "length (levels ?st1) = nat n + 1" "length (refinements ?st1) = nat n"
        "maxLevel ?st1 = n"
        using True "1.prems" by (simp_all add: adaptiveRefine_fields)
      from adaptiveLoop_result[OF pre, of rf ?opts1] run
      have kb: "i \<le> maxLevel st'" "maxLevel st' \<le> n" by auto
      from "1.IH"[OF True rng refl refl ne' pre run]
      have ih:
        "\<forall>j<nat (i + 1). levels st' ! j = levels ?st1 ! j"
        "\<forall>j<nat (i + 1 - 1). refinements st' ! j = refinements ?st1 ! j"
        "subdivType st' = subdivType ?st1" "subdivOptions st' = subdivOptions ?st1"
        "\<forall>j. i + 1 \<le> j \<and> j \<le> maxLevel st' \<longrightarrow>
            refinements st' ! nat (j - 1) =
              (initialize (nat (j - 1)) (nat j)
                 (setScheme (subdivType ?st1) (subdivOptions ?st1) (refinements ?st1 ! nat (j - 1))))
              \<lparr>refSelected := catmarkFeatureAdaptiveSelector (levels st' ! nat (j - 1)) {}\<rparr> \<and>
            levels st' ! nat j =
              rf (refinements st' ! nat (j - 1)) (?opts1\<lparr>faceTopologyOnly := False\<rparr>)
                 (levels st' ! nat (j - 1)) (levels ?st1 ! nat j)"
        by blast+
      have low: "levels st' ! j = levels st ! j" if "j < nat i" for j
      proof -
        from that rng have "j < nat (i + 1)" "j \<noteq> nat i" by auto
        with ih(1) show ?thesis by (simp add: adaptiveRefine_fields)
      qed
      have rlow: "refinements st' ! j = refinements st ! j" if "j < nat (i - 1)" for j
      proof -
        from that rng have "j < nat (i + 1 - 1)" "j \<noteq> nat (i - 1)" by auto
        with ih(2) show ?thesis by (simp add: adaptiveRefine_more)
      qed
      have li: "levels st' ! nat (i - 1) = levels st ! nat (i - 1)"
        using rng by (intro low) auto
      have ri: "refinements st' ! nat (i - 1) = ?r"
      proof -
        from rng have "nat (i - 1) < nat (i + 1 - 1)" by auto
        with ih(2) rng show ?thesis by (simp add: adaptiveRefine_more)
      qed
      have ci: "levels st' ! nat i = rf ?r ?opts1 (levels st ! nat (i - 1)) (levels st ! nat i)"
      proof -
        from rng have "nat i < nat (i + 1)" by auto
        with ih(1) rng show ?thesis by (simp add: adaptiveRefine_more)
      qed
      have step: "refinements st' ! nat (j - 1) =
              (initialize (nat (j - 1)) (nat j)
                 (setScheme (subdivType st) (subdivOptions st) (refinements st ! nat (j - 1))))
              \<lparr>refSelected := catmarkFeatureAdaptiveSelector (levels st' ! nat (j - 1)) {}\<rparr> \<and>
            levels st' ! nat j =
              rf (refinements st' ! nat (j - 1)) ?opts1
                 (levels st' ! nat (j - 1)) (levels st ! nat j)"
        if j: "i \<le> j" "j \<le> maxLevel st'" for j
      proof (cases "j = i")
        case True
        show ?thesis
          unfolding True ri ci li by (simp add: adaptiveSelect_eq)
      next
        case False
        with j rng have ne: "nat j \<noteq> nat i" "nat (j - 1) \<noteq> nat (i - 1)" "i + 1 \<le> j"
          by auto
        from ih(5) ne(3) j(2) show ?thesis
          using ne(1,2) by (simp add: adaptiveRefine_more adaptiveRefine_fields)
      qed
      show ?thesis
        using low rlow step ih(3,4) by (simp add: adaptiveRefine_more)
    qed
  qed
qed

lemma adaptiveLoop_options:
  "adaptiveLoop rf n opts i st = adaptiveLoop rf n (opts\<lparr>faceTopologyOnly := False\<rparr>) i st"
  using adaptiveLoop.simps[of rf n opts i st]
        adaptiveLoop.simps[of rf n "opts\<lparr>faceTopologyOnly := False\<rparr>" i st]
  by simp

lemma RefineAdaptive_loop:
  assumes "levels st = level0 # rest" and "0 < getNumVertices level0"
    and "subdivType st = TYPE_CATMARK" and "0 \<le> depth" and "depth < 2147483647"
  shows "RefineAdaptive rf depth fullTopology st =
           adaptiveLoop rf depth \<lparr>sparse = True, faceTopologyOnly = False\<rparr> 1
             (st\<lparr>isUniform := False, maxLevel := depth,
                 levels := resizeVec (nat (depth + 1)) emptyLevel (levels st),
                 refinements := resizeVec (nat depth) emptyRefinement (refinements st)\<rparr>)"
  using assms adaptiveLoop_options[of rf depth "\<lparr>sparse = True, faceTopologyOnly = \<not> fullTopology\<rparr>"]
  by (simp add: RefineAdaptive_def Let_def)

lemma length_resizeVec: "length (resizeVec n d xs) = n"
  by (simp add: resizeVec_def)

lemma resizeVec_nth0: "xs = x # ys \<Longrightarrow> 0 < n \<Longrightarrow> resizeVec n d xs ! 0 = x"
  by (cases n) (simp_all add: resizeVec_def)

text \<open>
  Claim C1.  On a hierarchy with a base level that has a vertex, with the Catmull-Clark
  scheme and a depth that is not negative (and below the largest \<^verbatim>\<open>int\<close>),
  \<open>RefineAdaptive\<close> returns.  There is a \<open>k\<close> with \<open>0 \<le> k \<le> depth\<close> such that the
  selection over the level at \<open>j - 1\<close> is not empty for every iteration \<open>j\<close> from 1 to
  \<open>k\<close>, and, when \<open>k < depth\<close>, the selection over the level at \<open>k\<close> is empty: iteration
  \<open>k + 1\<close> is the first with an empty selection, or there is none and \<open>k = depth\<close>.
  Afterwards \<open>maxLevel\<close> is \<open>k\<close>, the level sequence has \<open>k + 1\<close> elements, the
  refinement sequence has \<open>k\<close>, exactly the refinements 0 to \<open>k - 1\<close> were refined, in
  this order and none after them, the base level is unchanged and \<open>isUniform\<close> is false.
\<close>
theorem RefineAdaptive_result:
  assumes "levels st = level0 # rest" and "0 < getNumVertices level0"
    and "subdivType st = TYPE_CATMARK" and "0 \<le> depth" and "depth < 2147483647"
  shows "\<exists>st' k. RefineAdaptive rf depth fullTopology st = Inr st' \<and> 0 \<le> k \<and> k \<le> depth \<and>
           maxLevel st' = k \<and>
           length (levels st') = nat k + 1 \<and>
           length (refinements st') = nat k \<and>
           \<not> isUniform st' \<and>
           levels st' ! 0 = level0 \<and>
           refineTrace st' = refineTrace st @
             map (\<lambda>j. (nat (j - 1), \<lparr>sparse = True, faceTopologyOnly = False\<rparr>)) [1..k] \<and>
           (\<forall>j. 1 \<le> j \<and> j \<le> k \<longrightarrow>
              \<not> isSelectionEmpty (catmarkFeatureAdaptiveSelector (levels st' ! nat (j - 1)) {})) \<and>
           (k < depth \<longrightarrow>
              isSelectionEmpty (catmarkFeatureAdaptiveSelector (levels st' ! nat k) {}))"
proof -
  let ?st1 = "st\<lparr>isUniform := False, maxLevel := depth,
                 levels := resizeVec (nat (depth + 1)) emptyLevel (levels st),
                 refinements := resizeVec (nat depth) emptyRefinement (refinements st)\<rparr>"
  let ?opts = "\<lparr>sparse = True, faceTopologyOnly = False\<rparr>"
  have pre: "(1::int) \<le> 1" "1 \<le> depth + 1" "length (levels ?st1) = nat depth + 1"
    "length (refinements ?st1) = nat depth" "maxLevel ?st1 = depth"
    using assms(4) by (simp_all add: length_resizeVec nat_add_distrib)
  from adaptiveLoop_result[OF pre, of rf ?opts]
  obtain st' k where r:
    "adaptiveLoop rf depth ?opts 1 ?st1 = Inr st'" "0 \<le> k" "k \<le> depth"
    "maxLevel st' = k" "length (levels st') = nat k + 1" "length (refinements st') = nat k"
    "isUniform st' = isUniform ?st1"
    "refineTrace st' = refineTrace ?st1 @
       map (\<lambda>j. (nat (j - 1), ?opts\<lparr>faceTopologyOnly := False\<rparr>)) [1..k]"
    "\<forall>j<nat 1. levels st' ! j = levels ?st1 ! j"
    "\<forall>j. 1 \<le> j \<and> j \<le> k \<longrightarrow>
        \<not> isSelectionEmpty (catmarkFeatureAdaptiveSelector (levels st' ! nat (j - 1)) {})"
    "k < depth \<longrightarrow> isSelectionEmpty (catmarkFeatureAdaptiveSelector (levels st' ! nat k) {})"
    by auto
  have l0: "levels st' ! 0 = level0"
    using r(9) assms(1,4) resizeVec_nth0[OF assms(1), of "nat (depth + 1)" emptyLevel]
    by simp
  have run: "RefineAdaptive rf depth fullTopology st = Inr st'"
    using RefineAdaptive_loop[OF assms] r(1) by simp
  show ?thesis
    apply (rule exI[of _ st'], rule exI[of _ k])
    using run r(2-6) r(7) r(8) l0 r(10) r(11) by simp
qed

text \<open>
  Claim C5.  Under the same preconditions, the result of \<open>RefineAdaptive\<close> does not
  depend on its argument \<open>fullTopology\<close>.  It makes as many calls of \<^verbatim>\<open>refine\<close> as the
  final \<open>maxLevel\<close>, each with the options \<open>sparse = True\<close> and
  \<open>faceTopologyOnly = False\<close>: for every iteration \<open>j\<close> from 1 to \<open>maxLevel\<close>, the
  refinement at \<open>j - 1\<close> is the one bound to the scheme, initialised on the levels
  \<open>j - 1\<close> and \<open>j\<close> and marked by the selector, and the level at \<open>j\<close> is what \<open>rf\<close>
  returns for that refinement, these options, the level at \<open>j - 1\<close> and the child slot.
\<close>
theorem RefineAdaptive_options:
  assumes "levels st = level0 # rest" and "0 < getNumVertices level0"
    and "subdivType st = TYPE_CATMARK" and "0 \<le> depth" and "depth < 2147483647"
  shows "RefineAdaptive rf depth True st = RefineAdaptive rf depth False st \<and>
         (\<exists>st' calls. RefineAdaptive rf depth fullTopology st = Inr st' \<and>
            refineTrace st' = refineTrace st @ calls \<and>
            int (length calls) = maxLevel st' \<and>
            (\<forall>c\<in>set calls. sparse (snd c) \<and> \<not> faceTopologyOnly (snd c)) \<and>
            (\<forall>j. 1 \<le> j \<and> j \<le> maxLevel st' \<longrightarrow>
               refinements st' ! nat (j - 1) =
                 (initialize (nat (j - 1)) (nat j)
                    (setScheme (subdivType st) (subdivOptions st)
                       (resizeVec (nat depth) emptyRefinement (refinements st) ! nat (j - 1))))
                 \<lparr>refSelected := catmarkFeatureAdaptiveSelector (levels st' ! nat (j - 1)) {}\<rparr> \<and>
               levels st' ! nat j =
                 rf (refinements st' ! nat (j - 1)) \<lparr>sparse = True, faceTopologyOnly = False\<rparr>
                    (levels st' ! nat (j - 1))
                    (resizeVec (nat (depth + 1)) emptyLevel (levels st) ! nat j)))"
proof -
  let ?st1 = "st\<lparr>isUniform := False, maxLevel := depth,
                 levels := resizeVec (nat (depth + 1)) emptyLevel (levels st),
                 refinements := resizeVec (nat depth) emptyRefinement (refinements st)\<rparr>"
  let ?opts = "\<lparr>sparse = True, faceTopologyOnly = False\<rparr>"
  have same: "RefineAdaptive rf depth True st = RefineAdaptive rf depth False st"
    by (simp add: RefineAdaptive_loop[OF assms])
  have pre: "(1::int) \<le> 1" "1 \<le> depth + 1" "length (levels ?st1) = nat depth + 1"
    "length (refinements ?st1) = nat depth" "maxLevel ?st1 = depth"
    using assms(4) by (simp_all add: length_resizeVec nat_add_distrib)
  from adaptiveLoop_result[OF pre, of rf ?opts]
  obtain st' k where r:
    "adaptiveLoop rf depth ?opts 1 ?st1 = Inr st'" "0 \<le> k" "maxLevel st' = k"
    "refineTrace st' = refineTrace ?st1 @
       map (\<lambda>j. (nat (j - 1), ?opts\<lparr>faceTopologyOnly := False\<rparr>)) [1..k]"
    by auto
  let ?calls = "map (\<lambda>j. (nat (j - 1), ?opts)) [1..k]"
  have run: "RefineAdaptive rf depth fullTopology st = Inr st'"
    using RefineAdaptive_loop[OF assms] r(1) by simp
  have tr: "refineTrace st' = refineTrace st @ ?calls" using r(4) by simp
  have ln: "int (length ?calls) = maxLevel st'" using r(2,3) by simp
  have al: "\<forall>c\<in>set ?calls. sparse (snd c) \<and> \<not> faceTopologyOnly (snd c)" by simp
  from adaptiveLoop_levels[OF pre r(1)]
  have lv: "\<forall>j. 1 \<le> j \<and> j \<le> maxLevel st' \<longrightarrow>
               refinements st' ! nat (j - 1) =
                 (initialize (nat (j - 1)) (nat j)
                    (setScheme (subdivType st) (subdivOptions st)
                       (resizeVec (nat depth) emptyRefinement (refinements st) ! nat (j - 1))))
                 \<lparr>refSelected := catmarkFeatureAdaptiveSelector (levels st' ! nat (j - 1)) {}\<rparr> \<and>
               levels st' ! nat j =
                 rf (refinements st' ! nat (j - 1)) ?opts
                    (levels st' ! nat (j - 1))
                    (resizeVec (nat (depth + 1)) emptyLevel (levels st) ! nat j)"
    by simp
  from same run tr ln al lv show ?thesis by blast
qed

lemma uniformStep_result:
  assumes "1 \<le> i" and "i \<le> n"
    and "length (levels st) = nat n + 1" and "length (refinements st) = nat n"
  shows "\<exists>st1. uniformStep rf full n opts i st =
             Inr (opts\<lparr>faceTopologyOnly := (\<not> full \<and> i = n)\<rparr>, st1) \<and>
           length (levels st1) = length (levels st) \<and>
           length (refinements st1) = length (refinements st) \<and>
           isUniform st1 = isUniform st \<and> maxLevel st1 = maxLevel st \<and>
           subdivType st1 = subdivType st \<and> subdivOptions st1 = subdivOptions st \<and>
           refineTrace st1 = refineTrace st @
             [(nat (i - 1), opts\<lparr>faceTopologyOnly := (\<not> full \<and> i = n)\<rparr>)] \<and>
           (\<forall>j. j \<noteq> nat i \<longrightarrow> levels st1 ! j = levels st ! j) \<and>
           (\<forall>j. j \<noteq> nat (i - 1) \<longrightarrow> refinements st1 ! j = refinements st ! j) \<and>
           refinements st1 ! nat (i - 1) =
             initialize (nat (i - 1)) (nat i)
               (setScheme (subdivType st) (subdivOptions st) (refinements st ! nat (i - 1))) \<and>
           levels st1 ! nat i =
             rf (refinements st1 ! nat (i - 1)) (opts\<lparr>faceTopologyOnly := (\<not> full \<and> i = n)\<rparr>)
                (levels st ! nat (i - 1)) (levels st ! nat i)"
  using assms by (auto simp: uniformStep_def Let_def)

text \<open>
  The invariant of the uniform loop: from iteration \<open>i\<close> on it returns, it leaves the
  lengths, the lower levels and the lower refinements as they are, and for every
  iteration \<open>j\<close> from \<open>i\<close> to \<open>n\<close> the refinement at \<open>j - 1\<close> is bound and initialised and
  the level at \<open>j\<close> is what \<open>rf\<close> made of the level at \<open>j - 1\<close>.
\<close>

lemma uniformLoop_result:
  assumes "1 \<le> i" and "i \<le> n + 1"
    and "length (levels st) = nat n + 1" and "length (refinements st) = nat n"
  shows "\<exists>st'. uniformLoop rf full n opts i st = Inr st' \<and>
           length (levels st') = nat n + 1 \<and>
           length (refinements st') = nat n \<and>
           isUniform st' = isUniform st \<and> maxLevel st' = maxLevel st \<and>
           subdivType st' = subdivType st \<and> subdivOptions st' = subdivOptions st \<and>
           refineTrace st' = refineTrace st @
             map (\<lambda>j. (nat (j - 1), opts\<lparr>faceTopologyOnly := (\<not> full \<and> j = n)\<rparr>)) [i..n] \<and>
           (\<forall>j<nat i. levels st' ! j = levels st ! j) \<and>
           (\<forall>j<nat (i - 1). refinements st' ! j = refinements st ! j) \<and>
           (\<forall>j. i \<le> j \<and> j \<le> n \<longrightarrow>
              refinements st' ! nat (j - 1) =
                initialize (nat (j - 1)) (nat j)
                  (setScheme (subdivType st) (subdivOptions st) (refinements st ! nat (j - 1))) \<and>
              levels st' ! nat j =
                rf (refinements st' ! nat (j - 1)) (opts\<lparr>faceTopologyOnly := (\<not> full \<and> j = n)\<rparr>)
                   (levels st' ! nat (j - 1)) (levels st ! nat j))"
  using assms
proof (induction rf full n opts i st rule: uniformLoop.induct)
  case (1 rf full n opts i st)
  show ?case
  proof (cases "i \<le> n")
    case False
    with "1.prems" have up: "[i..n] = []" by simp
    have run: "uniformLoop rf full n opts i st = Inr st"
      using False by (subst uniformLoop.simps) simp
    have vac: "\<not> (i \<le> j \<and> j \<le> n)" for j using False by simp
    have tr: "refineTrace st = refineTrace st @
             map (\<lambda>j. (nat (j - 1), opts\<lparr>faceTopologyOnly := (\<not> full \<and> j = n)\<rparr>)) [i..n]"
      by (simp add: up)
    show ?thesis
      apply (rule exI[of _ st])
      using run "1.prems"(3,4) tr vac by blast
  next
    case True
    let ?o1 = "opts\<lparr>faceTopologyOnly := (\<not> full \<and> i = n)\<rparr>"
    let ?r = "initialize (nat (i - 1)) (nat i)
               (setScheme (subdivType st) (subdivOptions st) (refinements st ! nat (i - 1)))"
    from uniformStep_result[OF "1.prems"(1) True "1.prems"(3,4), of rf full opts]
    obtain st1 where s:
      "uniformStep rf full n opts i st = Inr (?o1, st1)"
      "length (levels st1) = length (levels st)"
      "length (refinements st1) = length (refinements st)"
      "isUniform st1 = isUniform st" "maxLevel st1 = maxLevel st"
      "subdivType st1 = subdivType st" "subdivOptions st1 = subdivOptions st"
      "refineTrace st1 = refineTrace st @ [(nat (i - 1), ?o1)]"
      "\<forall>j. j \<noteq> nat i \<longrightarrow> levels st1 ! j = levels st ! j"
      "\<forall>j. j \<noteq> nat (i - 1) \<longrightarrow> refinements st1 ! j = refinements st ! j"
      "refinements st1 ! nat (i - 1) = ?r"
      "levels st1 ! nat i =
         rf (refinements st1 ! nat (i - 1)) ?o1 (levels st ! nat (i - 1)) (levels st ! nat i)"
      by blast
    have run: "uniformLoop rf full n opts i st = uniformLoop rf full n ?o1 (i + 1) st1"
      using True s(1) by (subst uniformLoop.simps) simp
    have pre: "1 \<le> i + 1" "i + 1 \<le> n + 1" "length (levels st1) = nat n + 1"
      "length (refinements st1) = nat n"
      using True "1.prems" s(2,3) by simp_all
    from "1.IH"[OF True s(1) refl pre]
    obtain st' where r:
      "uniformLoop rf full n ?o1 (i + 1) st1 = Inr st'"
      "length (levels st') = nat n + 1" "length (refinements st') = nat n"
      "isUniform st' = isUniform st1" "maxLevel st' = maxLevel st1"
      "subdivType st' = subdivType st1" "subdivOptions st' = subdivOptions st1"
      "refineTrace st' = refineTrace st1 @
         map (\<lambda>j. (nat (j - 1), ?o1\<lparr>faceTopologyOnly := (\<not> full \<and> j = n)\<rparr>)) [i + 1..n]"
      "\<forall>j<nat (i + 1). levels st' ! j = levels st1 ! j"
      "\<forall>j<nat (i + 1 - 1). refinements st' ! j = refinements st1 ! j"
      "\<forall>j. i + 1 \<le> j \<and> j \<le> n \<longrightarrow>
              refinements st' ! nat (j - 1) =
                initialize (nat (j - 1)) (nat j)
                  (setScheme (subdivType st1) (subdivOptions st1) (refinements st1 ! nat (j - 1))) \<and>
              levels st' ! nat j =
                rf (refinements st' ! nat (j - 1))
                   (?o1\<lparr>faceTopologyOnly := (\<not> full \<and> j = n)\<rparr>)
                   (levels st' ! nat (j - 1)) (levels st1 ! nat j)"
      by blast
    have up: "[i..n] = i # [i + 1..n]" using True by (simp add: upto_rec1)
    have i1: "1 \<le> i" by (rule "1.prems"(1))
    have tr: "refineTrace st' = refineTrace st @
             map (\<lambda>j. (nat (j - 1), opts\<lparr>faceTopologyOnly := (\<not> full \<and> j = n)\<rparr>)) [i..n]"
      using r(8) s(8) by (simp add: up)
    have low: "levels st' ! j = levels st ! j" if "j < nat i" for j
    proof -
      from that i1 have "j < nat (i + 1)" "j \<noteq> nat i" by auto
      with r(9) s(9) show ?thesis by simp
    qed
    have rlow: "refinements st' ! j = refinements st ! j" if "j < nat (i - 1)" for j
    proof -
      from that i1 have "j < nat (i + 1 - 1)" "j \<noteq> nat (i - 1)" by auto
      with r(10) s(10) show ?thesis by simp
    qed
    have li: "levels st' ! nat (i - 1) = levels st ! nat (i - 1)"
      using i1 by (intro low) auto
    have ri: "refinements st' ! nat (i - 1) = ?r"
    proof -
      from i1 have "nat (i - 1) < nat (i + 1 - 1)" by auto
      with r(10) s(11) show ?thesis by simp
    qed
    have ci: "levels st' ! nat i = rf ?r ?o1 (levels st ! nat (i - 1)) (levels st ! nat i)"
    proof -
      from i1 have "nat i < nat (i + 1)" by auto
      with r(9) s(11,12) show ?thesis by simp
    qed
    have step: "refinements st' ! nat (j - 1) =
                initialize (nat (j - 1)) (nat j)
                  (setScheme (subdivType st) (subdivOptions st) (refinements st ! nat (j - 1))) \<and>
              levels st' ! nat j =
                rf (refinements st' ! nat (j - 1)) (opts\<lparr>faceTopologyOnly := (\<not> full \<and> j = n)\<rparr>)
                   (levels st' ! nat (j - 1)) (levels st ! nat j)"
      if j: "i \<le> j" "j \<le> n" for j
    proof (cases "j = i")
      case True
      show ?thesis unfolding True ri ci li by simp
    next
      case False
      with j i1 have ne: "nat j \<noteq> nat i" "nat (j - 1) \<noteq> nat (i - 1)" "i + 1 \<le> j"
        by auto
      from r(11) ne(3) j(2) s(9,10) ne(1,2) show ?thesis
        by (simp add: s(6,7))
    qed
    show ?thesis
      apply (rule exI[of _ st'])
      using run r(1-7) s(4-7) tr low rlow step by simp
  qed
qed

text \<open>
  Claim C4.  On a hierarchy with a base level that has a vertex, with the Catmull-Clark
  scheme and a depth that is not negative (and below the largest \<^verbatim>\<open>int\<close>),
  \<open>RefineUniform\<close> returns; afterwards the level sequence has \<open>depth + 1\<close> elements, the
  refinement sequence has \<open>depth\<close>, \<open>isUniform\<close> is true, \<open>maxLevel\<close> is \<open>depth\<close> and the
  base level is unchanged.  The refinements 0 to \<open>depth - 1\<close> were refined in this order:
  for every step \<open>i\<close> from 1 to \<open>depth\<close>, the refinement at \<open>i - 1\<close> is the one bound to
  the scheme and initialised on the levels \<open>i - 1\<close> and \<open>i\<close>, and the level at \<open>i\<close> is
  what \<open>rf\<close> returns for that refinement, the options \<open>sparse = False\<close> (with
  \<open>faceTopologyOnly\<close> set for the last step only, and only when \<open>fullTopology\<close> is false),
  the level at \<open>i - 1\<close> and the child slot.
\<close>
theorem RefineUniform_result:
  assumes "levels st = level0 # rest" and "0 < getNumVertices level0"
    and "subdivType st = TYPE_CATMARK" and "0 \<le> depth" and "depth < 2147483647"
  shows "\<exists>st'. RefineUniform rf depth fullTopology st = Inr st' \<and>
           length (levels st') = nat depth + 1 \<and>
           length (refinements st') = nat depth \<and>
           isUniform st' \<and> maxLevel st' = depth \<and>
           levels st' ! 0 = level0 \<and>
           refineTrace st' = refineTrace st @
             map (\<lambda>i. (nat (i - 1),
                        \<lparr>sparse = False, faceTopologyOnly = (\<not> fullTopology \<and> i = depth)\<rparr>))
                 [1..depth] \<and>
           (\<forall>i. 1 \<le> i \<and> i \<le> depth \<longrightarrow>
              refinements st' ! nat (i - 1) =
                initialize (nat (i - 1)) (nat i)
                  (setScheme (subdivType st) (subdivOptions st)
                     (resizeVec (nat depth) emptyRefinement (refinements st) ! nat (i - 1))) \<and>
              levels st' ! nat i =
                rf (refinements st' ! nat (i - 1))
                   \<lparr>sparse = False, faceTopologyOnly = (\<not> fullTopology \<and> i = depth)\<rparr>
                   (levels st' ! nat (i - 1))
                   (resizeVec (nat (depth + 1)) emptyLevel (levels st) ! nat i))"
proof -
  let ?st1 = "st\<lparr>isUniform := True, maxLevel := depth,
                 levels := resizeVec (nat (depth + 1)) emptyLevel (levels st),
                 refinements := resizeVec (nat depth) emptyRefinement (refinements st)\<rparr>"
  let ?opts = "\<lparr>sparse = False, faceTopologyOnly = False\<rparr>"
  have pre: "(1::int) \<le> 1" "1 \<le> depth + 1" "length (levels ?st1) = nat depth + 1"
    "length (refinements ?st1) = nat depth"
    using assms(4) by (simp_all add: length_resizeVec nat_add_distrib)
  from uniformLoop_result[OF pre, of rf fullTopology ?opts]
  obtain st' where r:
    "uniformLoop rf fullTopology depth ?opts 1 ?st1 = Inr st'"
    "length (levels st') = nat depth + 1" "length (refinements st') = nat depth"
    "isUniform st' = isUniform ?st1" "maxLevel st' = maxLevel ?st1"
    "refineTrace st' = refineTrace ?st1 @
       map (\<lambda>j. (nat (j - 1), ?opts\<lparr>faceTopologyOnly := (\<not> fullTopology \<and> j = depth)\<rparr>)) [1..depth]"
    "\<forall>j<nat 1. levels st' ! j = levels ?st1 ! j"
    "\<forall>j. 1 \<le> j \<and> j \<le> depth \<longrightarrow>
              refinements st' ! nat (j - 1) =
                initialize (nat (j - 1)) (nat j)
                  (setScheme (subdivType ?st1) (subdivOptions ?st1) (refinements ?st1 ! nat (j - 1))) \<and>
              levels st' ! nat j =
                rf (refinements st' ! nat (j - 1))
                   (?opts\<lparr>faceTopologyOnly := (\<not> fullTopology \<and> j = depth)\<rparr>)
                   (levels st' ! nat (j - 1)) (levels ?st1 ! nat j)"
    by blast
  have l0: "levels st' ! 0 = level0"
    using r(7) assms(4) resizeVec_nth0[OF assms(1), of "nat (depth + 1)" emptyLevel]
    by simp
  have run: "RefineUniform rf depth fullTopology st = Inr st'"
    using assms r(1) by (simp add: RefineUniform_def Let_def)
  have lv: "\<forall>i. 1 \<le> i \<and> i \<le> depth \<longrightarrow>
              refinements st' ! nat (i - 1) =
                initialize (nat (i - 1)) (nat i)
                  (setScheme (subdivType st) (subdivOptions st)
                     (resizeVec (nat depth) emptyRefinement (refinements st) ! nat (i - 1))) \<and>
              levels st' ! nat i =
                rf (refinements st' ! nat (i - 1))
                   \<lparr>sparse = False, faceTopologyOnly = (\<not> fullTopology \<and> i = depth)\<rparr>
                   (levels st' ! nat (i - 1))
                   (resizeVec (nat (depth + 1)) emptyLevel (levels st) ! nat i)"
    using r(8) by simp
  show ?thesis
    apply (rule exI[of _ st'])
    using run r(2-6) l0 lv by simp
qed

lemma quadRefiner_pre:
  "levels quadRefiner = quadLevel # []" "0 < getNumVertices quadLevel"
  "subdivType quadRefiner = TYPE_CATMARK" "refineTrace quadRefiner = []"
  by (simp_all add: quadRefiner_def quadLevel_def newTopologyRefiner_def)

lemma adaptive_toEmpty_run:
  "(case RefineAdaptive refineToEmpty 2 True quadRefiner of
      Inl e \<Rightarrow> False | Inr st' \<Rightarrow> maxLevel st' = 1)"
  by code_simp

text \<open>
  The single quad, depth 2, with a refinement that leaves the child empty: iteration 1
  refines, iteration 2 finds nothing to select and trims.
\<close>
theorem RefineAdaptive_result_witness:
  "\<exists>st'. RefineAdaptive refineToEmpty 2 True quadRefiner = Inr st' \<and>
     maxLevel st' = 1 \<and> length (levels st') = 2 \<and> length (refinements st') = 1 \<and>
     \<not> isUniform st' \<and> levels st' ! 0 = quadLevel \<and>
     refineTrace st' = [(0, \<lparr>sparse = True, faceTopologyOnly = False\<rparr>)] \<and>
     isSelectionEmpty (catmarkFeatureAdaptiveSelector (levels st' ! 1) {})"
proof -
  have d: "(0::int) \<le> 2" "(2::int) < 2147483647" by simp_all
  from RefineAdaptive_result[OF quadRefiner_pre(1-3) d, of refineToEmpty True]
  obtain st' k where r:
    "RefineAdaptive refineToEmpty 2 True quadRefiner = Inr st'"
    "maxLevel st' = k"
    "length (levels st') = nat k + 1" "length (refinements st') = nat k"
    "\<not> isUniform st'" "levels st' ! 0 = quadLevel"
    "refineTrace st' = refineTrace quadRefiner @
       map (\<lambda>j. (nat (j - 1), \<lparr>sparse = True, faceTopologyOnly = False\<rparr>)) [1..k]"
    "k < 2 \<longrightarrow> isSelectionEmpty (catmarkFeatureAdaptiveSelector (levels st' ! nat k) {})"
    by blast
  from adaptive_toEmpty_run r(1,2) have k: "k = 1" by simp
  have up: "[1..1::int] = [1]" by (simp add: upto_rec1)
  show ?thesis
    apply (rule exI[of _ st'])
    using r k by (simp add: quadRefiner_pre(4) up)
qed

text \<open>
  The single quad, depth 2, with the refinement that records its options: both levels
  carry the mark of \<open>sparse = True\<close> and \<open>faceTopologyOnly = False\<close>, for either value of
  \<open>fullTopology\<close>.
\<close>
theorem RefineAdaptive_options_witness:
  "RefineAdaptive refineMarked 2 True quadRefiner = RefineAdaptive refineMarked 2 False quadRefiner \<and>
   (\<exists>st'. RefineAdaptive refineMarked 2 False quadRefiner = Inr st' \<and>
      maxLevel st' = 2 \<and>
      map snd (refineTrace st') =
        [\<lparr>sparse = True, faceTopologyOnly = False\<rparr>, \<lparr>sparse = True, faceTopologyOnly = False\<rparr>] \<and>
      getNumVertices (levels st' ! 1) = 6 \<and> getNumVertices (levels st' ! 2) = 6)"
proof -
  have d: "(0::int) \<le> 2" "(2::int) < 2147483647" by simp_all
  have ml: "(case RefineAdaptive refineMarked 2 False quadRefiner of
      Inl e \<Rightarrow> False | Inr st' \<Rightarrow> maxLevel st' = 2)"
    by code_simp
  from RefineAdaptive_options[OF quadRefiner_pre(1-3) d, of refineMarked False]
  obtain st' calls where r:
    "RefineAdaptive refineMarked 2 True quadRefiner = RefineAdaptive refineMarked 2 False quadRefiner"
    "RefineAdaptive refineMarked 2 False quadRefiner = Inr st'"
    "refineTrace st' = refineTrace quadRefiner @ calls"
    "int (length calls) = maxLevel st'"
    "\<forall>c\<in>set calls. sparse (snd c) \<and> \<not> faceTopologyOnly (snd c)"
    "\<forall>j. 1 \<le> j \<and> j \<le> maxLevel st' \<longrightarrow>
       levels st' ! nat j =
         refineMarked (refinements st' ! nat (j - 1)) \<lparr>sparse = True, faceTopologyOnly = False\<rparr>
           (levels st' ! nat (j - 1))
           (resizeVec (nat (2 + 1)) emptyLevel (levels quadRefiner) ! nat j)"
    by blast
  from ml r(2) have k: "maxLevel st' = 2" by simp
  with r(4) have "length calls = 2" by simp
  then obtain a b where ab: "calls = [a, b]"
    by (metis (no_types, opaque_lifting) One_nat_def Suc_1 length_0_conv length_Suc_conv)
  with r(5) have sn: "snd a = \<lparr>sparse = True, faceTopologyOnly = False\<rparr>"
    "snd b = \<lparr>sparse = True, faceTopologyOnly = False\<rparr>"
    by simp_all
  from r(6)[rule_format, of 1] k have v1: "getNumVertices (levels st' ! 1) = 6"
    by (simp add: refineMarked_def)
  from r(6)[rule_format, of 2] k have v2: "getNumVertices (levels st' ! 2) = 6"
    by (simp add: refineMarked_def)
  from r(1,2,3) ab sn k v1 v2 show ?thesis by (simp add: quadRefiner_pre(4))
qed

text \<open>
  The single quad refined uniformly to depth 2 with the refinement that records its
  options: level 1 carries the mark of \<open>sparse = False\<close> and \<open>faceTopologyOnly = False\<close>,
  level 2 that of \<open>sparse = False\<close> and \<open>faceTopologyOnly = True\<close>.
\<close>
theorem RefineUniform_result_witness:
  "\<exists>st'. RefineUniform refineMarked 2 False quadRefiner = Inr st' \<and>
     length (levels st') = 3 \<and> length (refinements st') = 2 \<and>
     isUniform st' \<and> maxLevel st' = 2 \<and> levels st' ! 0 = quadLevel \<and>
     refineTrace st' = [(0, \<lparr>sparse = False, faceTopologyOnly = False\<rparr>),
                        (1, \<lparr>sparse = False, faceTopologyOnly = True\<rparr>)] \<and>
     getNumVertices (levels st' ! 1) = 4 \<and> getNumVertices (levels st' ! 2) = 5"
proof -
  have d: "(0::int) \<le> 2" "(2::int) < 2147483647" by simp_all
  have up: "[1..2::int] = [1, 2]" by (simp add: upto_rec1)
  from RefineUniform_result[OF quadRefiner_pre(1-3) d, of refineMarked False]
  obtain st' where r:
    "RefineUniform refineMarked 2 False quadRefiner = Inr st'"
    "length (levels st') = nat 2 + 1" "length (refinements st') = nat 2"
    "isUniform st'" "maxLevel st' = 2" "levels st' ! 0 = quadLevel"
    "refineTrace st' = refineTrace quadRefiner @
             map (\<lambda>i. (nat (i - 1),
                        \<lparr>sparse = False, faceTopologyOnly = (\<not> False \<and> i = 2)\<rparr>))
                 [1..2]"
    "\<forall>i. 1 \<le> i \<and> i \<le> 2 \<longrightarrow>
       levels st' ! nat i =
         refineMarked (refinements st' ! nat (i - 1))
            \<lparr>sparse = False, faceTopologyOnly = (\<not> False \<and> i = 2)\<rparr>
            (levels st' ! nat (i - 1))
            (resizeVec (nat (2 + 1)) emptyLevel (levels quadRefiner) ! nat i)"
    by blast
  from r(8)[rule_format, of 1] have v1: "getNumVertices (levels st' ! 1) = 4"
    by (simp add: refineMarked_def)
  from r(8)[rule_format, of 2] have v2: "getNumVertices (levels st' ! 2) = 5"
    by (simp add: refineMarked_def)
  show ?thesis
    apply (rule exI[of _ st'])
    using r(1-7) v1 v2 by (simp add: quadRefiner_pre(4) up)
qed

end
